theory Spec2Isabelle
  imports Complex_Main "HOL-Library.Word"
begin

section \<open>JavaScript strings and errors\<close>

text \<open>
  A JavaScript string is a sequence of UTF-16 code units, and \<open>length\<close>, \<open>slice\<close>,
  \<open>trim\<close> and \<open>includes\<close> all count code units. Literals of the source that are
  plain ASCII are written with \<open>ascii\<close>; every other character is given by its code
  units (an emoji outside the basic plane is a surrogate pair, two units).
\<close>

type_synonym jsstring = "16 word list"

definition ascii :: "string \<Rightarrow> jsstring" where
  "ascii s = map of_char s"

text \<open>
  The code units that \<open>String.prototype.trim\<close> strips: ECMAScript's WhiteSpace and
  LineTerminator.
\<close>

definition isWhiteSpace :: "16 word \<Rightarrow> bool" where
  "isWhiteSpace c \<longleftrightarrow>
     c = 0x09 \<or> c = 0x0A \<or> c = 0x0B \<or> c = 0x0C \<or> c = 0x0D \<or> c = 0x20 \<or> c = 0xA0 \<or>
     c = 0x1680 \<or> (0x2000 \<le> c \<and> c \<le> 0x200A) \<or> c = 0x2028 \<or> c = 0x2029 \<or>
     c = 0x202F \<or> c = 0x205F \<or> c = 0x3000 \<or> c = 0xFEFF"

definition trim :: "jsstring \<Rightarrow> jsstring" where
  "trim s = rev (dropWhile isWhiteSpace (rev (dropWhile isWhiteSpace s)))"

text \<open>\<open>s.slice(0, n)\<close> for a non-negative \<open>n\<close>: the first \<open>n\<close> code units.\<close>

definition slice0 :: "nat \<Rightarrow> jsstring \<Rightarrow> jsstring" where
  "slice0 n s = take n s"

text \<open>
  A thrown value: \<open>undefined\<close> or \<open>null\<close>, of which nothing can be read, or any other
  value, of which the controller reads only \<open>message\<close> (absent when the value is not an
  \<open>Error\<close> object).
\<close>

datatype error = Error "jsstring option" | Nullish

text \<open>
  \<open>try { body } catch (e) { handler }\<close>: a body that raised is replaced by the
  handler's result.
\<close>

definition try_catch :: "error + 'a \<Rightarrow> (error \<Rightarrow> error + 'a) \<Rightarrow> error + 'a" where
  "try_catch body handler = (case body of Inl e \<Rightarrow> handler e | Inr v \<Rightarrow> Inr v)"

text \<open>\<open>x || d\<close> on a string that may be undefined: the string when it is non-empty.\<close>

definition or_else :: "jsstring option \<Rightarrow> jsstring \<Rightarrow> jsstring" where
  "or_else x d = (case x of None \<Rightarrow> d | Some s \<Rightarrow> if s = [] then d else s)"

section \<open>Objects and JSON\<close>

text \<open>
  A JavaScript object whose property values are strings, with its properties in
  insertion order. Reading a missing property gives undefined; writing an existing
  one keeps its place.
\<close>

type_synonym js_object = "(jsstring \<times> jsstring) list"

definition getProperty :: "js_object \<Rightarrow> jsstring \<Rightarrow> jsstring option" where
  "getProperty obj k = map_of obj k"

fun setProperty :: "jsstring \<Rightarrow> jsstring \<Rightarrow> js_object \<Rightarrow> js_object" where
  "setProperty k v [] = [(k, v)]"
| "setProperty k v ((k', v') # ps) =
     (if k' = k then (k, v) # ps else (k', v') # setProperty k v ps)"

subsection \<open>JSON.stringify\<close>

text \<open>
  ECMAScript's QuoteJSONString walks the code points of the string: a surrogate pair is
  copied, a lone surrogate and a control character are written as an escape.
\<close>

definition isLeadSurrogate :: "16 word \<Rightarrow> bool" where
  "isLeadSurrogate c \<longleftrightarrow> 0xD800 \<le> c \<and> c \<le> 0xDBFF"

definition isTrailSurrogate :: "16 word \<Rightarrow> bool" where
  "isTrailSurrogate c \<longleftrightarrow> 0xDC00 \<le> c \<and> c \<le> 0xDFFF"

definition hexDigit :: "nat \<Rightarrow> 16 word" where
  "hexDigit n = (if n < 10 then 0x30 + of_nat n else 0x57 + of_nat n)"

definition unicodeEscape :: "16 word \<Rightarrow> jsstring" where
  "unicodeEscape c =
     [0x5C, 0x75] @
     map hexDigit [unat c div 4096, unat c div 256 mod 16, unat c div 16 mod 16, unat c mod 16]"

definition quoteUnit :: "16 word \<Rightarrow> jsstring" where
  "quoteUnit c =
     (if c = 0x08 then [0x5C, 0x62]
      else if c = 0x09 then [0x5C, 0x74]
      else if c = 0x0A then [0x5C, 0x6E]
      else if c = 0x0C then [0x5C, 0x66]
      else if c = 0x0D then [0x5C, 0x72]
      else if c = 0x22 then [0x5C, 0x22]
      else if c = 0x5C then [0x5C, 0x5C]
      else if c < 0x20 \<or> isLeadSurrogate c \<or> isTrailSurrogate c then unicodeEscape c
      else [c])"

fun quoteChars :: "jsstring \<Rightarrow> jsstring" where
  "quoteChars (c # d # cs) =
     (if isLeadSurrogate c \<and> isTrailSurrogate d then c # d # quoteChars cs
      else quoteUnit c @ quoteChars (d # cs))"
| "quoteChars [c] = quoteUnit c"
| "quoteChars [] = []"

definition QuoteJSONString :: "jsstring \<Rightarrow> jsstring" where
  "QuoteJSONString s = [0x22] @ quoteChars s @ [0x22]"

fun stringifyMembers :: "js_object \<Rightarrow> jsstring" where
  "stringifyMembers [] = []"
| "stringifyMembers [(k, v)] = QuoteJSONString k @ [0x3A] @ QuoteJSONString v"
| "stringifyMembers ((k, v) # m # ms) =
     QuoteJSONString k @ [0x3A] @ QuoteJSONString v @ [0x2C] @ stringifyMembers (m # ms)"

definition JSON_stringify :: "js_object \<Rightarrow> jsstring" where
  "JSON_stringify obj = [0x7B] @ stringifyMembers obj @ [0x7D]"

subsection \<open>JSON.parse\<close>

text \<open>
  The JSON grammar for an object whose members are strings: white space between tokens,
  escapes with upper or lower case hexadecimal digits, no raw control character in a
  string, a later member overwriting an earlier one of the same name. The model follows
  \<open>JSON.parse\<close> on these texts only: on any other text, where \<open>JSON.parse\<close> raises a
  SyntaxError or returns a value of another shape, the value is \<open>None\<close> and says
  neither.
\<close>

definition hexValue :: "16 word \<Rightarrow> nat option" where
  "hexValue c =
     (if 0x30 \<le> c \<and> c \<le> 0x39 then Some (unat c - 48)
      else if 0x61 \<le> c \<and> c \<le> 0x66 then Some (unat c - 87)
      else if 0x41 \<le> c \<and> c \<le> 0x46 then Some (unat c - 55)
      else None)"

definition unescape :: "16 word \<Rightarrow> 16 word option" where
  "unescape e =
     (if e = 0x22 then Some 0x22
      else if e = 0x5C then Some 0x5C
      else if e = 0x2F then Some 0x2F
      else if e = 0x62 then Some 0x08
      else if e = 0x66 then Some 0x0C
      else if e = 0x6E then Some 0x0A
      else if e = 0x72 then Some 0x0D
      else if e = 0x74 then Some 0x09
      else None)"

definition consChar ::
  "16 word \<Rightarrow> (jsstring \<times> jsstring) option \<Rightarrow> (jsstring \<times> jsstring) option" where
  "consChar c r = map_option (\<lambda>(s, rest). (c # s, rest)) r"

text \<open>
  The characters of a string after its opening quote: the string and the text that
  follows the closing quote.
\<close>

fun parseChars :: "jsstring \<Rightarrow> (jsstring \<times> jsstring) option" where
  "parseChars [] = None"
| "parseChars (c # cs) =
     (if c = 0x22 then Some ([], cs)
      else if c = 0x5C then
        (case cs of
           [] \<Rightarrow> None
         | e # es \<Rightarrow>
             if e = 0x75 then
               (case es of
                  h1 # h2 # h3 # h4 # rest \<Rightarrow>
                    (case (hexValue h1, hexValue h2, hexValue h3, hexValue h4) of
                       (Some d1, Some d2, Some d3, Some d4) \<Rightarrow>
                         consChar (of_nat (((d1 * 16 + d2) * 16 + d3) * 16 + d4))
                           (parseChars rest)
                     | _ \<Rightarrow> None)
                | _ \<Rightarrow> None)
             else
               (case unescape e of
                  None \<Rightarrow> None
                | Some u \<Rightarrow> consChar u (parseChars es)))
      else if c < 0x20 then None
      else consChar c (parseChars cs))"

definition parseString :: "jsstring \<Rightarrow> (jsstring \<times> jsstring) option" where
  "parseString s =
     (case s of [] \<Rightarrow> None | c # cs \<Rightarrow> if c = 0x22 then parseChars cs else None)"

definition isJSONWhiteSpace :: "16 word \<Rightarrow> bool" where
  "isJSONWhiteSpace c \<longleftrightarrow> c = 0x09 \<or> c = 0x0A \<or> c = 0x0D \<or> c = 0x20"

definition skipWs :: "jsstring \<Rightarrow> jsstring" where
  "skipWs s = dropWhile isJSONWhiteSpace s"

text \<open>
  The members of an object after its opening brace, up to and including the closing
  brace; \<open>acc\<close> holds the properties read so far.
\<close>

function parseMembers :: "js_object \<Rightarrow> jsstring \<Rightarrow> (js_object \<times> jsstring) option" where
  "parseMembers acc s =
     (case parseString (skipWs s) of
        None \<Rightarrow> None
      | Some (k, s1) \<Rightarrow>
          (case skipWs s1 of
             [] \<Rightarrow> None
           | c1 # s2 \<Rightarrow>
               if c1 \<noteq> 0x3A then None
               else
                 (case parseString (skipWs s2) of
                    None \<Rightarrow> None
                  | Some (v, s3) \<Rightarrow>
                      (case skipWs s3 of
                         [] \<Rightarrow> None
                       | c3 # s4 \<Rightarrow>
                           if c3 = 0x2C then parseMembers (setProperty k v acc) s4
                           else if c3 = 0x7D then Some (setProperty k v acc, s4)
                           else None))))"
  by pat_completeness auto
termination
proof (relation "measure (\<lambda>(acc, s). length s)", goal_cases)
  case 1
  show ?case by simp
next
  case (2 acc s x2 k s1 c1 s2 x2a v s3 c3 s4)
  have chars: "length rest < length t" if "parseChars t = Some (w, rest)" for t w rest
    using that
  proof (induction t arbitrary: w rest rule: parseChars.induct)
    case 1
    then show ?case by simp
  next
    case (2 c cs)
    then show ?case
      by (auto simp: consChar_def split: if_splits list.splits option.splits prod.splits)
         fastforce+
  qed
  have str: "length rest < length t" if "parseString t = Some (w, rest)" for t w rest
    using that by (auto simp: parseString_def split: list.splits if_splits dest: chars)
  have ws: "length (skipWs t) \<le> length t" for t
    by (simp add: skipWs_def length_dropWhile_le)
  have "length s1 < length (skipWs s)"
    using 2 str by metis
  moreover have "length s2 < length (skipWs s1)"
    using 2 by simp
  moreover have "length s3 < length (skipWs s2)"
    using 2 str by metis
  moreover have "length s4 < length (skipWs s3)"
    using 2 by simp
  ultimately show ?case
    using ws [of s] ws [of s1] ws [of s2] ws [of s3] by simp
qed

declare parseMembers.simps [simp del]

definition JSON_parse :: "jsstring \<Rightarrow> js_object option" where
  "JSON_parse s =
     (case skipWs s of
        [] \<Rightarrow> None
      | c # s1 \<Rightarrow>
          if c \<noteq> 0x7B then None
          else
            (case skipWs s1 of
               [] \<Rightarrow> None
             | c2 # s2 \<Rightarrow>
                 (case (if c2 = 0x7D then Some ([], s2) else parseMembers [] s1) of
                    None \<Rightarrow> None
                  | Some (obj, rest) \<Rightarrow> if skipWs rest = [] then Some obj else None)))"

text \<open>Writing a list of members one after the other, as the parser does.\<close>

definition assign :: "js_object \<Rightarrow> js_object \<Rightarrow> js_object" where
  "assign ms acc = fold (\<lambda>(k, v). setProperty k v) ms acc"

section \<open>The generation client (services/geminiService.ts)\<close>

text \<open>
  The generation provider is an external service: whatever prompt the client sends, any
  response may come back, or the call may raise. Every provider call is therefore
  represented by its outcome, \<open>Inl e\<close> when the awaited call raised \<open>e\<close> and
  \<open>Inr r\<close> when it returned \<open>r\<close>; the prompt text is not part of the model.

  Each of the four functions first calls \<open>getAI()\<close>, which constructs the provider's
  client from the configured API key, and does so before any \<open>try\<close>. The argument
  \<open>getAI\<close> is the outcome of that construction: it raises where the client cannot be
  constructed (no API key), and the function raises with it.

  A text response carries \<open>response.text\<close>, a string or undefined.
\<close>

type_synonym text_response = "jsstring option"

subsection \<open>generateStyleSuggestion\<close>

definition defaultStyleSuggestion :: jsstring where
  "defaultStyleSuggestion =
     ascii ''Cen'' @ [0xE1] @ ascii ''rio cinematogr'' @ [0xE1] @
     ascii ''fico minimalista com ilumina'' @ [0xE7, 0xE3] @ ascii ''o dram'' @ [0xE1] @
     ascii ''tica.''"

definition generateStyleSuggestion ::
  "error + unit \<Rightarrow> error + text_response \<Rightarrow> error + jsstring" where
  "generateStyleSuggestion getAI call =
     (case getAI of
        Inl e \<Rightarrow> Inl e
      | Inr ai \<Rightarrow>
          try_catch
            (case call of
               Inl e \<Rightarrow> Inl e
             | Inr response \<Rightarrow> Inr (or_else (map_option trim response) []))
            (\<lambda>e. Inr defaultStyleSuggestion))"

subsection \<open>generateAdCaption\<close>

text \<open>
  \<open>Math.random()\<close> returns a number \<open>r\<close> with \<open>0 \<le> r < 1\<close>; the type holds exactly
  these. \<open>random_index r n\<close> is \<open>Math.floor(r * n)\<close>.
\<close>

typedef random_number = "{r :: real. 0 \<le> r \<and> r < 1}"
  by (rule exI [of _ 0]) simp

setup_lifting type_definition_random_number

lift_definition random_index :: "random_number \<Rightarrow> nat \<Rightarrow> nat" is
  "\<lambda>r n. nat \<lfloor>r * real n\<rfloor>" .

lift_definition random_zero :: random_number is "0"
  by simp

lift_definition random_half :: random_number is "1 / 2"
  by simp

text \<open>The four sentences of the fallback, each around the product description.\<close>

definition frases :: "jsstring \<Rightarrow> jsstring list" where
  "frases description =
     [ [0xD83D, 0xDD25] @ ascii '' OFERTA! Confira agora esse incr'' @ [0xED] @ ascii ''vel '' @
         description @
         ascii ''. Qualidade garantida e pre'' @ [0xE7] @ ascii ''o especial hoje! '' @
         [0xD83D, 0xDE80],
       [0x26A1] @ ascii '' ACHADINHO: Acabamos de encontrar o melhor '' @
         description @
         ascii '' para voc'' @ [0xEA] @ ascii ''. Aproveite antes que acabe! '' @
         [0xD83D, 0xDE0D],
       [0xD83D, 0xDEA8] @ ascii '' PROMO'' @ [0xC7, 0xC3] @ ascii ''O! '' @
         description @
         ascii '' com o visual que voc'' @ [0xEA] @
         ascii '' sempre quis. Design e performance '' @ [0xFA] @ ascii ''nicos! '' @ [0x2705],
       [0x2728] @ ascii '' NOVIDADE! O '' @
         description @
         ascii '' que '' @ [0xE9] @ ascii '' tend'' @ [0xEA] @
         ascii ''ncia absoluta chegou. Garanta o seu com exclusividade! '' @ [0xD83D, 0xDC8E] ]"

text \<open>
  The body of the \<open>try\<close>: the response text trimmed and cut to 160 code units, and
  \<open>Falha na IA\<close> thrown when that is undefined, empty or shorter than 5.
\<close>

definition textoIA :: "text_response \<Rightarrow> jsstring option" where
  "textoIA response = map_option (\<lambda>t. slice0 160 (trim t)) response"

definition generateAdCaption ::
  "error + unit \<Rightarrow> error + text_response \<Rightarrow> random_number \<Rightarrow> jsstring \<Rightarrow>
     error + jsstring" where
  "generateAdCaption getAI call r description =
     (case getAI of
        Inl e \<Rightarrow> Inl e
      | Inr ai \<Rightarrow>
          try_catch
            (case call of
               Inl e \<Rightarrow> Inl e
             | Inr response \<Rightarrow>
                 (case textoIA response of
                    None \<Rightarrow> Inl (Error (Some (ascii ''Falha na IA'')))
                  | Some t \<Rightarrow>
                      if t = [] \<or> length t < 5 then Inl (Error (Some (ascii ''Falha na IA'')))
                      else Inr t))
            (\<lambda>e. Inr (frases description ! random_index r (length (frases description)))))"

subsection \<open>generateTextImage\<close>

text \<open>
  The image response as the client reads it: \<open>candidates\<close> may be undefined, a
  candidate may lack \<open>content\<close>, a content may lack \<open>parts\<close>, and a part carries
  \<open>text\<close>, \<open>inlineData\<close>, both or neither. An \<open>inlineData\<close> object may lack its
  \<open>mimeType\<close>.
\<close>

record inlineData =
  data :: jsstring
  mimeType :: "jsstring option"

record part =
  partText :: "jsstring option"
  inlineData :: "inlineData option"

record content =
  parts :: "part list option"

record candidate =
  content :: "content option"

record image_response =
  candidates :: "candidate list option"

text \<open>
  \<open>response.candidates?.[0]?.content?.parts.find(p => p.inlineData)\<close>: only the
  first candidate is looked at, and in it the first part with \<open>inlineData\<close>. The
  chain guards \<open>candidates\<close>, the first candidate and \<open>content\<close>, but not \<open>parts\<close>:
  on a content without parts, \<open>.find\<close> is read of undefined and a TypeError is raised.
\<close>

definition typeError :: error where
  "typeError = Error (Some (ascii ''Cannot read properties of undefined''))"

definition findInlinePart :: "image_response \<Rightarrow> error + part option" where
  "findInlinePart r =
     (case candidates r of
        None \<Rightarrow> Inr None
      | Some [] \<Rightarrow> Inr None
      | Some (c # _) \<Rightarrow>
          (case content c of
             None \<Rightarrow> Inr None
           | Some ct \<Rightarrow>
               (case parts ct of
                  None \<Rightarrow> Inl typeError
                | Some ps \<Rightarrow> Inr (find (\<lambda>p. inlineData p \<noteq> None) ps))))"

definition falhaImagem :: error where
  "falhaImagem = Error (Some (ascii ''Falha ao gerar imagem.''))"

text \<open>The result is the pair \<open>{ data, mimeType }\<close>.\<close>

definition generateTextImage ::
  "error + unit \<Rightarrow> error + image_response \<Rightarrow> error + (jsstring \<times> jsstring)" where
  "generateTextImage getAI call =
     (case getAI of
        Inl e \<Rightarrow> Inl e
      | Inr ai \<Rightarrow>
          (case call of
             Inl e \<Rightarrow> Inl e
           | Inr r \<Rightarrow>
               (case findInlinePart r of
                  Inl e \<Rightarrow> Inl e
                | Inr None \<Rightarrow> Inl falhaImagem
                | Inr (Some p) \<Rightarrow>
                    (case inlineData p of
                       None \<Rightarrow> Inl falhaImagem
                     | Some d \<Rightarrow> Inr (data d, or_else (mimeType d) (ascii ''image/png''))))))"

subsection \<open>generateTextVideo\<close>

text \<open>
  The handle of the long-running video operation: its completion flag and, once
  complete, a response that may list generated videos, each of which may carry a
  video with a URI.
\<close>

record video =
  uri :: "jsstring option"

record generatedVideo =
  video :: "video option"

record videos_response =
  generatedVideos :: "generatedVideo list option"

record operation =
  op_done :: bool
  response :: "videos_response option"

text \<open>What the client does while it waits, in order.\<close>

datatype event = Sleep nat | GetVideosOperation

text \<open>
  The \<open>while (!operation.done)\<close> loop. \<open>getVideosOperation k\<close> is the outcome of
  the \<open>k\<close>-th status check (counted from 0). The loop has no bound: when no check ever
  reports completion or raises, it does not return, and the value is \<open>None\<close>.
\<close>

partial_function (option) poll_loop ::
  "(nat \<Rightarrow> error + operation) \<Rightarrow> nat \<Rightarrow> operation \<Rightarrow> event list \<Rightarrow>
     ((error + operation) \<times> event list) option" where
  "poll_loop getVideosOperation k operation events =
     (if \<not> op_done operation then
        (case getVideosOperation k of
           Inl e \<Rightarrow> Some (Inl e, events @ [Sleep 5000, GetVideosOperation])
         | Inr operation' \<Rightarrow>
             poll_loop getVideosOperation (Suc k) operation'
               (events @ [Sleep 5000, GetVideosOperation]))
      else Some (Inr operation, events))"

text \<open>\<open>operation.response?.generatedVideos?.[0]?.video?.uri\<close>\<close>

definition resultUri :: "operation \<Rightarrow> jsstring option" where
  "resultUri operation =
     (case response operation of
        None \<Rightarrow> None
      | Some r \<Rightarrow>
          (case generatedVideos r of
             None \<Rightarrow> None
           | Some [] \<Rightarrow> None
           | Some (g # _) \<Rightarrow>
               (case video g of None \<Rightarrow> None | Some v \<Rightarrow> uri v)))"

definition falhaVideo :: error where
  "falhaVideo = Error (Some (ascii ''Falha ao gerar v'' @ [0xED] @ ascii ''deo.''))"

text \<open>
  \<open>generateVideos\<close> is the outcome of submitting the job, and \<open>fetchVideo\<close> the
  outcome of fetching the result and turning it into an object URL.
\<close>

definition generateTextVideo ::
  "error + unit \<Rightarrow> error + operation \<Rightarrow> (nat \<Rightarrow> error + operation) \<Rightarrow>
     error + jsstring \<Rightarrow> ((error + jsstring) \<times> event list) option" where
  "generateTextVideo getAI generateVideos getVideosOperation fetchVideo =
     (case getAI of
        Inl e \<Rightarrow> Some (Inl e, [])
      | Inr ai \<Rightarrow>
          (case generateVideos of
             Inl e \<Rightarrow> Some (Inl e, [])
           | Inr operation \<Rightarrow>
               (case poll_loop getVideosOperation 0 operation [] of
                  None \<Rightarrow> None
                | Some (Inl e, events) \<Rightarrow> Some (Inl e, events)
                | Some (Inr completed, events) \<Rightarrow>
                    (case resultUri completed of
                       None \<Rightarrow> Some (Inl falhaVideo, events)
                     | Some u \<Rightarrow>
                         if u = [] then Some (Inl falhaVideo, events)
                         else Some (fetchVideo, events)))))"

section \<open>The controller (the App component)\<close>

text \<open>
  Modelled from the spec: the enumeration \<open>AppState\<close> is declared in \<open>types.ts\<close>,
  which is not among the sources. Its members are the five the component names, the
  spec's Idle, GeneratingImage, GeneratingVideo, Playing and Error; the error message is
  kept in \<open>statusMessage\<close>, not in the state.
\<close>

datatype AppState = IDLE | GENERATING_IMAGE | GENERATING_VIDEO | PLAYING | ERROR

datatype ViewMode = gallery | create | auth

text \<open>
  The interface \<open>UserProfile\<close>: five strings. At run time a profile is an object with
  these five properties, written in this order by the object literal of \<open>saveProfile\<close>.
\<close>

record UserProfile =
  name :: jsstring
  phone :: jsstring
  instagram :: jsstring
  twitter :: jsstring
  tiktok :: jsstring

definition profileObject :: "UserProfile \<Rightarrow> js_object" where
  "profileObject p =
     [(ascii ''name'', name p), (ascii ''phone'', phone p), (ascii ''instagram'', instagram p),
      (ascii ''twitter'', twitter p), (ascii ''tiktok'', tiktok p)]"

text \<open>The component's state variables that the handlers below read or write.\<close>

record app =
  state :: AppState
  viewMode :: ViewMode
  showKeyDialog :: bool
  userProfile :: "js_object option"
  contentUrl :: jsstring
  inputText :: jsstring
  inputStyle :: jsstring
  imageSrc :: "jsstring option"
  videoSrc :: "jsstring option"
  adCaption :: jsstring
  statusMessage :: jsstring

text \<open>
  A handler is the list of setter calls it makes, in order; running them on the state
  gives the state after the handler.
\<close>

datatype action =
    SetState AppState
  | SetViewMode ViewMode
  | SetShowKeyDialog bool
  | SetUserProfile "js_object option"
  | SetImageSrc "jsstring option"
  | SetVideoSrc "jsstring option"
  | SetAdCaption jsstring
  | SetStatusMessage jsstring

fun apply_action :: "action \<Rightarrow> app \<Rightarrow> app" where
  "apply_action (SetState v) a = a\<lparr>state := v\<rparr>"
| "apply_action (SetViewMode v) a = a\<lparr>viewMode := v\<rparr>"
| "apply_action (SetShowKeyDialog v) a = a\<lparr>showKeyDialog := v\<rparr>"
| "apply_action (SetUserProfile v) a = a\<lparr>userProfile := v\<rparr>"
| "apply_action (SetImageSrc v) a = a\<lparr>imageSrc := v\<rparr>"
| "apply_action (SetVideoSrc v) a = a\<lparr>videoSrc := v\<rparr>"
| "apply_action (SetAdCaption v) a = a\<lparr>adCaption := v\<rparr>"
| "apply_action (SetStatusMessage v) a = a\<lparr>statusMessage := v\<rparr>"

definition run :: "action list \<Rightarrow> app \<Rightarrow> app" where
  "run actions a = fold apply_action actions a"

text \<open>The state before the first setter call and after each one.\<close>

fun snapshots :: "action list \<Rightarrow> app \<Rightarrow> app list" where
  "snapshots [] a = [a]"
| "snapshots (x # xs) a = a # snapshots xs (apply_action x a)"

subsection \<open>startProcess\<close>

text \<open>
  Everything outside the component that one run of \<open>startProcess\<close> awaits:
  \<open>window.aistudio?.hasSelectedApiKey()\<close> (undefined where the host injects no
  \<open>aistudio\<close>), the construction of the client (its outcome depends on the configured
  API key only, so it is the same for the three calls of a run), the text call and the
  random number of the caption, the image call, the submission, status checks and fetch
  of the video. The style, the typography and the reference image only go into prompts.
\<close>

record environment =
  hasSelectedApiKey :: "bool option"
  getAI :: "error + unit"
  captionCall :: "error + text_response"
  mathRandom :: random_number
  imageCall :: "error + image_response"
  generateVideos :: "error + operation"
  getVideosOperation :: "nat \<Rightarrow> error + operation"
  fetchVideo :: "error + jsstring"

text \<open>
  The \<open>catch\<close> block of \<open>startProcess\<close>. It reads \<open>err.message\<close> before it calls a
  setter: when the thrown value is \<open>undefined\<close> or \<open>null\<close> that read raises, the
  handler ends there and no setter is called.
\<close>

definition catchBlock :: "error \<Rightarrow> action list" where
  "catchBlock err =
     (case err of
        Nullish \<Rightarrow> []
      | Error message \<Rightarrow>
          [SetStatusMessage (or_else message (ascii ''Erro ao processar.'')), SetState ERROR])"

definition dataUrl :: "jsstring \<Rightarrow> jsstring \<Rightarrow> jsstring" where
  "dataUrl mime b64Image = ascii ''data:'' @ mime @ ascii '';base64,'' @ b64Image"

text \<open>
  The setter calls before the \<open>try\<close>, and those made once the caption and the image
  are there.
\<close>

definition beginActions :: "action list" where
  "beginActions =
     [SetState GENERATING_IMAGE, SetVideoSrc None, SetImageSrc None, SetAdCaption [],
      SetStatusMessage (ascii ''Analisando produto...'')]"

definition imageReadyActions :: "jsstring \<Rightarrow> jsstring \<Rightarrow> jsstring \<Rightarrow> action list" where
  "imageReadyActions generatedCaption mime b64Image =
     [SetAdCaption generatedCaption,
      SetImageSrc (Some (dataUrl mime b64Image)),
      SetState GENERATING_VIDEO,
      SetStatusMessage
        (ascii ''Criando v'' @ [0xED] @ ascii ''deo com legenda est'' @ [0xE9] @
         ascii ''tica...'')]"

text \<open>
  The value of \<open>startProcess\<close> is the list of setter calls of the run, \<open>None\<close> when
  the video poll never returns. The function itself does not look at \<open>state\<close>.
\<close>

definition startProcess :: "environment \<Rightarrow> app \<Rightarrow> action list option" where
  "startProcess env a =
     (if trim (inputText a) = [] then Some []
      else if hasSelectedApiKey env \<noteq> Some True then Some [SetShowKeyDialog True]
      else
        (case generateAdCaption (getAI env) (captionCall env) (mathRandom env) (inputText a) of
           Inl err \<Rightarrow> Some (beginActions @ catchBlock err)
         | Inr generatedCaption \<Rightarrow>
             (case generateTextImage (getAI env) (imageCall env) of
                Inl err \<Rightarrow>
                  Some (beginActions @ [SetAdCaption generatedCaption] @ catchBlock err)
              | Inr (b64Image, mime) \<Rightarrow>
                  (case generateTextVideo (getAI env) (generateVideos env)
                          (getVideosOperation env) (fetchVideo env) of
                     None \<Rightarrow> None
                   | Some (Inl err, _) \<Rightarrow>
                       Some (beginActions @ imageReadyActions generatedCaption mime b64Image @
                             catchBlock err)
                   | Some (Inr videoUrl, _) \<Rightarrow>
                       Some (beginActions @ imageReadyActions generatedCaption mime b64Image @
                             [SetVideoSrc (Some videoUrl), SetState PLAYING])))))"

definition afterStartProcess :: "environment \<Rightarrow> app \<Rightarrow> app option" where
  "afterStartProcess env a = map_option (\<lambda>actions. run actions a) (startProcess env a)"

subsection \<open>The submit control\<close>

text \<open>
  The creation form, whose \<open>onSubmit\<close> is \<open>startProcess\<close>, is on screen when the
  view mode is \<open>create\<close> (the panel is hidden in the gallery and shows the profile
  screen in \<open>auth\<close>) and \<open>renderAppContent\<close> does not show the result panel instead.
  The form's only submit button is disabled when the trimmed text is empty or the state
  is not \<open>IDLE\<close>, and a form whose submit button is disabled is not submitted. The
  browser's own validation of the inputs is left out.
\<close>

definition formShown :: "app \<Rightarrow> bool" where
  "formShown a \<longleftrightarrow>
     viewMode a = create \<and>
     \<not> (state a = GENERATING_IMAGE \<or> state a = GENERATING_VIDEO \<or> state a = PLAYING)"

definition submitDisabled :: "app \<Rightarrow> bool" where
  "submitDisabled a \<longleftrightarrow> trim (inputText a) = [] \<or> state a \<noteq> IDLE"

definition submit :: "environment \<Rightarrow> app \<Rightarrow> action list option" where
  "submit env a =
     (if formShown a \<and> \<not> submitDisabled a then startProcess env a else Some [])"

definition afterSubmit :: "environment \<Rightarrow> app \<Rightarrow> app option" where
  "afterSubmit env a = map_option (\<lambda>actions. run actions a) (submit env a)"

subsection \<open>handleShareTwitter\<close>

text \<open>\<open>s.includes(p)\<close>: \<open>p\<close> occurs in \<open>s\<close> as a run of consecutive code units.\<close>

fun includes_js :: "jsstring \<Rightarrow> jsstring \<Rightarrow> bool" where
  "includes_js [] p = (p = [])"
| "includes_js (c # cs) p = (take (length p) (c # cs) = p \<or> includes_js cs p)"

definition intentTweet :: jsstring where
  "intentTweet = ascii ''https://twitter.com/intent/tweet''"

text \<open>
  \<open>encodeURIComponent\<close>: letters, digits and \<open>-_.!~*'()\<close> are kept, every other
  code point is written as the percent-escaped octets of its UTF-8 encoding, and a lone
  surrogate raises a URIError.
\<close>

definition uriUnescaped :: "16 word \<Rightarrow> bool" where
  "uriUnescaped c \<longleftrightarrow>
     (0x41 \<le> c \<and> c \<le> 0x5A) \<or> (0x61 \<le> c \<and> c \<le> 0x7A) \<or> (0x30 \<le> c \<and> c \<le> 0x39) \<or>
     c = 0x2D \<or> c = 0x5F \<or> c = 0x2E \<or> c = 0x21 \<or> c = 0x7E \<or> c = 0x2A \<or> c = 0x27 \<or>
     c = 0x28 \<or> c = 0x29"

definition utf8 :: "nat \<Rightarrow> nat list" where
  "utf8 cp =
     (if cp < 0x80 then [cp]
      else if cp < 0x800 then [0xC0 + cp div 64, 0x80 + cp mod 64]
      else if cp < 0x10000 then [0xE0 + cp div 4096, 0x80 + cp div 64 mod 64, 0x80 + cp mod 64]
      else [0xF0 + cp div 262144, 0x80 + cp div 4096 mod 64, 0x80 + cp div 64 mod 64,
            0x80 + cp mod 64])"

definition upperHexDigit :: "nat \<Rightarrow> 16 word" where
  "upperHexDigit n = (if n < 10 then 0x30 + of_nat n else 0x37 + of_nat n)"

definition percentOctets :: "nat list \<Rightarrow> jsstring" where
  "percentOctets octets =
     concat (map (\<lambda>b. [0x25, upperHexDigit (b div 16), upperHexDigit (b mod 16)]) octets)"

fun encodeChars :: "jsstring \<Rightarrow> jsstring option" where
  "encodeChars [] = Some []"
| "encodeChars (c # cs) =
     (if uriUnescaped c then map_option ((#) c) (encodeChars cs)
      else if isLeadSurrogate c then
        (case cs of
           [] \<Rightarrow> None
         | d # ds \<Rightarrow>
             if isTrailSurrogate d then
               map_option
                 ((@) (percentOctets
                         (utf8 (0x10000 + (unat c - 0xD800) * 0x400 + (unat d - 0xDC00)))))
                 (encodeChars ds)
             else None)
      else if isTrailSurrogate c then None
      else map_option ((@) (percentOctets (utf8 (unat c)))) (encodeChars cs))"

definition uriError :: error where
  "uriError = Error (Some (ascii ''URI malformed''))"

definition encodeURIComponent :: "jsstring \<Rightarrow> error + jsstring" where
  "encodeURIComponent s = (case encodeChars s of None \<Rightarrow> Inl uriError | Some t \<Rightarrow> Inr t)"

text \<open>
  The value is the URL given to \<open>window.open\<close>; when the encoding raises, nothing is
  opened.
\<close>

definition handleShareTwitter :: "app \<Rightarrow> error + jsstring" where
  "handleShareTwitter a =
     (case encodeURIComponent (adCaption a @ [0x0A, 0x0A] @ contentUrl a) of
        Inl e \<Rightarrow> Inl e
      | Inr encoded \<Rightarrow>
          let twitterUrl =
                or_else
                  (case userProfile a of
                     None \<Rightarrow> None
                   | Some p \<Rightarrow> getProperty p (ascii ''twitter''))
                  intentTweet;
              baseUrl = (if includes_js twitterUrl (ascii ''intent/tweet'') then twitterUrl
                         else intentTweet)
          in Inr (baseUrl @ ascii ''?text='' @ encoded))"

subsection \<open>saveProfile and the start-up effect\<close>

text \<open>
  \<open>localStorage\<close> maps keys to strings; the simulated store always accepts a write.
  \<open>saveProfile\<close> reads the five inputs of the profile form (\<open>formData\<close>), sets the
  profile, writes its JSON text under \<open>typeMotion_profile\<close> and returns to the gallery.
\<close>

type_synonym storage = "jsstring \<rightharpoonup> jsstring"

definition profileKey :: jsstring where
  "profileKey = ascii ''typeMotion_profile''"

definition saveProfile :: "UserProfile \<Rightarrow> storage \<Rightarrow> action list \<times> storage" where
  "saveProfile formData localStorage =
     (let profile = profileObject formData
      in ([SetUserProfile (Some profile), SetViewMode gallery],
          localStorage(profileKey \<mapsto> JSON_stringify profile)))"

text \<open>
  The effect run once when the component mounts: a stored, non-empty text is parsed and
  what it denotes becomes the profile. The value is \<open>None\<close> for a stored text on which
  the model does not follow \<open>JSON.parse\<close>.
\<close>

definition loadProfile :: "storage \<Rightarrow> action list option" where
  "loadProfile localStorage =
     (case localStorage profileKey of
        None \<Rightarrow> Some []
      | Some saved \<Rightarrow>
          if saved = [] then Some []
          else
            (case JSON_parse saved of
               None \<Rightarrow> None
             | Some parsed \<Rightarrow> Some [SetUserProfile (Some parsed)]))"

section \<open>What the properties observe\<close>

text \<open>
  The parts of the first candidate of an image response, which is all the client reads,
  and the parts of the whole response.
\<close>

definition candidateParts :: "candidate \<Rightarrow> part list" where
  "candidateParts c =
     (case content c of
        None \<Rightarrow> []
      | Some ct \<Rightarrow> (case parts ct of None \<Rightarrow> [] | Some ps \<Rightarrow> ps))"

definition firstCandidateParts :: "image_response \<Rightarrow> part list" where
  "firstCandidateParts r =
     (case candidates r of
        None \<Rightarrow> []
      | Some [] \<Rightarrow> []
      | Some (c # _) \<Rightarrow> candidateParts c)"

text \<open>
  The first candidate can be read: it is absent, or without content, or its content has
  a list of parts.
\<close>

definition firstCandidateReadable :: "image_response \<Rightarrow> bool" where
  "firstCandidateReadable r =
     (case candidates r of
        None \<Rightarrow> True
      | Some [] \<Rightarrow> True
      | Some (c # _) \<Rightarrow> (case content c of None \<Rightarrow> True | Some ct \<Rightarrow> parts ct \<noteq> None))"

definition responseParts :: "image_response \<Rightarrow> part list" where
  "responseParts r =
     (case candidates r of None \<Rightarrow> [] | Some cs \<Rightarrow> concat (map candidateParts cs))"

definition hasInlineData :: "part \<Rightarrow> bool" where
  "hasInlineData p \<longleftrightarrow> inlineData p \<noteq> None"

text \<open>One round of the poll loop: the delay, then the status check.\<close>

definition pollRound :: "event list" where
  "pollRound = [Sleep 5000, GetVideosOperation]"

text \<open>
  The values \<open>state\<close> takes during a handler, without repetitions, and the setter
  calls that give a result field a value.
\<close>

definition viewStates :: "action list \<Rightarrow> app \<Rightarrow> AppState list" where
  "viewStates actions a = remdups_adj (map state (snapshots actions a))"

fun populates :: "action \<Rightarrow> bool" where
  "populates (SetAdCaption v) = (v \<noteq> [])"
| "populates (SetImageSrc v) = (v \<noteq> None)"
| "populates (SetVideoSrc v) = (v \<noteq> None)"
| "populates _ = False"

definition population :: "action list \<Rightarrow> action list" where
  "population actions = filter populates actions"

text \<open>
  The personal Twitter link the user has configured: the \<open>twitter\<close> property of the
  profile, when there is a profile and the property is a non-empty string.
\<close>

definition configuredTwitter :: "app \<Rightarrow> jsstring option" where
  "configuredTwitter a =
     (case userProfile a of
        None \<Rightarrow> None
      | Some p \<Rightarrow>
          (case getProperty p (ascii ''twitter'') of
             None \<Rightarrow> None
           | Some link \<Rightarrow> if link = [] then None else Some link))"

section \<open>Concrete inputs\<close>

text \<open>The error of constructing the client without an API key.\<close>

definition noApiKey :: error where
  "noApiKey = Error (Some (ascii ''An API Key must be set when running in a browser''))"

text \<open>A product description of 100 letters \<open>a\<close>.\<close>

definition longDescription :: jsstring where
  "longDescription = replicate 100 0x61"

text \<open>Image responses: parts, candidates, and two responses with an inline image.\<close>

definition textOnly :: "jsstring \<Rightarrow> part" where
  "textOnly t = \<lparr>partText = Some t, inlineData = None\<rparr>"

definition inlineImage :: "jsstring \<Rightarrow> jsstring option \<Rightarrow> part" where
  "inlineImage d m = \<lparr>partText = None, inlineData = Some \<lparr>data = d, mimeType = m\<rparr>\<rparr>"

definition oneCandidate :: "part list \<Rightarrow> candidate" where
  "oneCandidate ps = \<lparr>content = Some \<lparr>parts = Some ps\<rparr>\<rparr>"

definition secondCandidateImage :: image_response where
  "secondCandidateImage =
     \<lparr>candidates = Some [oneCandidate [textOnly (ascii ''Sorry'')],
                         oneCandidate [inlineImage (ascii ''iVBORw0KGgo='') (Some (ascii ''image/jpeg''))]]\<rparr>"

definition imageWithoutMimeType :: image_response where
  "imageWithoutMimeType =
     \<lparr>candidates = Some [oneCandidate [textOnly (ascii ''Here:''),
                                        inlineImage (ascii ''iVBORw0KGgo='') None]]\<rparr>"

text \<open>A response whose only candidate has a content without parts.\<close>

definition contentWithoutParts :: image_response where
  "contentWithoutParts = \<lparr>candidates = Some [\<lparr>content = Some \<lparr>parts = None\<rparr>\<rparr>]\<rparr>"

text \<open>Video operations: one still running, one completed with or without a URI.\<close>

definition running :: operation where
  "running = \<lparr>op_done = False, response = None\<rparr>"

definition completedWith :: "jsstring option \<Rightarrow> operation" where
  "completedWith u =
     \<lparr>op_done = True,
      response = Some \<lparr>generatedVideos = Some [\<lparr>video = Some \<lparr>uri = u\<rparr>\<rparr>]\<rparr>\<rparr>"

text \<open>A provider that answers \<open>N\<close> status checks with a running operation and every later one
  with the completed operation.\<close>

definition notDoneThenDone :: "nat \<Rightarrow> operation \<Rightarrow> nat \<Rightarrow> error + operation" where
  "notDoneThenDone N completed k = (if k < N then Inr running else Inr completed)"

text \<open>
  The component on the creation form with a product text, and after a failed run. A
  provider for which every call succeeds, the video being done at the third status
  check, and the same provider completing the video without a URI.
\<close>

definition idleApp :: app where
  "idleApp =
     \<lparr>state = IDLE, viewMode = create, showKeyDialog = False, userProfile = None,
      contentUrl = ascii ''https://loja.example/mesa'', inputText = ascii ''Mesa'',
      inputStyle = [], imageSrc = None, videoSrc = None, adCaption = [],
      statusMessage = []\<rparr>"

definition errorApp :: app where
  "errorApp =
     idleApp\<lparr>state := ERROR, imageSrc := Some (ascii ''data:image/png;base64,AAAA''),
             adCaption := ascii ''Mesa antiga'', statusMessage := ascii ''Falha''\<rparr>"

definition successfulProvider :: environment where
  "successfulProvider =
     \<lparr>hasSelectedApiKey = Some True,
      getAI = Inr (),
      captionCall = Inr (Some (ascii ''Mesa nova, compre hoje!'')),
      mathRandom = random_zero,
      imageCall = Inr imageWithoutMimeType,
      generateVideos = Inr running,
      getVideosOperation = notDoneThenDone 2 (completedWith (Some (ascii ''https://v.example/1?a=b''))),
      fetchVideo = Inr (ascii ''blob:video'')\<rparr>"

definition noUriProvider :: environment where
  "noUriProvider = successfulProvider\<lparr>getVideosOperation := notDoneThenDone 2 (completedWith None)\<rparr>"

text \<open>
  A profile whose name holds quotation marks and whose Instagram link starts with an
  emoji, and the component showing a result to a user with that profile.
\<close>

definition joe :: "jsstring \<Rightarrow> UserProfile" where
  "joe link =
     \<lparr>name = ascii ''Joe '' @ [0x22] @ ascii ''J'' @ [0x22] @ ascii '' Silva'',
      phone = ascii ''11999999999'',
      instagram = [0xD83D, 0xDD25] @ ascii ''joe'', twitter = link, tiktok = []\<rparr>"

definition sharingApp :: "jsstring \<Rightarrow> app" where
  "sharingApp link =
     \<lparr>state = PLAYING, viewMode = create, showKeyDialog = False,
      userProfile = Some (profileObject (joe link)),
      contentUrl = ascii ''https://loja.example/mesa'', inputText = ascii ''Mesa'',
      inputStyle = [], imageSrc = Some (ascii ''data:image/png;base64,AAAA''),
      videoSrc = Some (ascii ''blob:video''), adCaption = ascii ''Mesa nova'',
      statusMessage = []\<rparr>"

section \<open>Properties of the generation client\<close>

subsection \<open>Strings and the random choice\<close>

lemma length_ascii: "length (ascii s) = length s"
  by (simp add: ascii_def)

lemma random_index_less: "0 < n \<Longrightarrow> random_index r n < n"
proof transfer
  fix r :: real and n :: nat
  assume n: "0 < n" and r: "0 \<le> r \<and> r < 1"
  then have "r * real n < real n" by simp
  then have "\<lfloor>r * real n\<rfloor> < int n" by (simp add: floor_less_iff)
  moreover have "0 \<le> \<lfloor>r * real n\<rfloor>" using r by simp
  ultimately show "nat \<lfloor>r * real n\<rfloor> < n" by linarith
qed

lemma random_index_zero: "random_index random_zero n = 0"
  by transfer simp

lemma random_index_half: "random_index random_half 4 = 2"
  by transfer simp

lemma length_frases: "length (frases d) = 4"
  by (simp add: frases_def)

lemma frases_lengths:
  "map length (frases d) = [86 + length d, 85 + length d, 79 + length d, 83 + length d]"
  by (simp add: frases_def length_ascii)

lemma frases_nth_length:
  assumes "i < 4"
  shows "length (frases d ! i) = [86, 85, 79, 83] ! i + length d"
proof -
  have "length (frases d ! i) = map length (frases d) ! i"
    using assms by (simp add: length_frases)
  also have "\<dots> = [86 + length d, 85 + length d, 79 + length d, 83 + length d] ! i"
    by (simp only: frases_lengths)
  also have "\<dots> = [86, 85, 79, 83] ! i + length d"
    using assms by (auto simp: less_Suc_eq numeral_eq_Suc)
  finally show ?thesis .
qed

lemma fallback_length:
  "length (frases d ! random_index r (length (frases d))) =
     [86, 85, 79, 83] ! random_index r 4 + length d"
  by (simp add: length_frases frases_nth_length random_index_less)

lemma fallback_min_length: "79 + length d \<le> length (frases d ! random_index r (length (frases d)))"
proof -
  have "random_index r 4 < 4" by (simp add: random_index_less)
  then have "79 \<le> [86, 85, 79, 83 :: nat] ! random_index r 4"
    by (auto simp: less_Suc_eq numeral_eq_Suc)
  then show ?thesis by (simp add: fallback_length)
qed

lemma generateAdCaption_raised:
  "generateAdCaption (Inr ()) (Inl e) r d = Inr (frases d ! random_index r (length (frases d)))"
  by (simp add: generateAdCaption_def try_catch_def)

lemma generateAdCaption_no_client: "generateAdCaption (Inl e) call r d = Inl e"
  by (simp add: generateAdCaption_def)

lemma generateAdCaption_cases:
  "generateAdCaption (Inr ()) call r d = Inr (frases d ! random_index r (length (frases d))) \<or>
   (\<exists>t. call = Inr (Some t) \<and> generateAdCaption (Inr ()) call r d = Inr (slice0 160 (trim t)) \<and>
        5 \<le> length (slice0 160 (trim t)))"
  by (cases call) (auto simp: generateAdCaption_def try_catch_def textoIA_def split: option.splits)

lemma generateAdCaption_returns:
  "\<exists>c. generateAdCaption (Inr ()) call r d = Inr c \<and> 5 \<le> length c"
  using generateAdCaption_cases [of call r d] fallback_min_length [of d r] by auto

lemma generateAdCaption_model_text:
  assumes "generateAdCaption (Inr ()) (Inr resp) r d \<noteq>
             Inr (frases d ! random_index r (length (frases d)))"
  shows "\<exists>c. generateAdCaption (Inr ()) (Inr resp) r d = Inr c \<and> 5 \<le> length c \<and>
             length c \<le> 160"
  using generateAdCaption_cases [of "Inr resp" r d] assms by (auto simp: slice0_def)

lemma generateAdCaption_fallback_long:
  assumes "82 \<le> length d"
  shows "\<exists>c. generateAdCaption (Inr ()) (Inl e) r d = Inr c \<and> 160 < length c"
  using assms fallback_min_length [of d r] by (simp add: generateAdCaption_raised)

lemma trim_whitespace_only: "list_all isWhiteSpace t \<Longrightarrow> trim t = []"
  by (auto simp: trim_def list_all_iff dest: set_dropWhileD)

lemma defaultStyleSuggestion_nonempty: "defaultStyleSuggestion \<noteq> []"
  by (simp add: defaultStyleSuggestion_def ascii_def)

subsection \<open>Style suggestion\<close>

text \<open>
  Once the client is constructed, \<open>generateStyleSuggestion\<close> returns a string whatever
  the outcome of the model call, and the fixed default description when that call
  raises.
\<close>

lemma generateStyleSuggestion_constructed:
  "(\<exists>s. generateStyleSuggestion (Inr ()) call = Inr s) \<and>
   generateStyleSuggestion (Inr ()) (Inl e) = Inr defaultStyleSuggestion"
  by (cases call) (simp_all add: generateStyleSuggestion_def try_catch_def)

text \<open>
  Claim C5, at the input where it fails. The construction of the client, which comes
  before the \<open>try\<close>, raises: \<open>generateStyleSuggestion\<close> raises the same error, for every
  text and whatever the model call would have done, where the claim says that it never
  raises.
\<close>

theorem generateStyleSuggestion_raises_without_client:
  "generateStyleSuggestion (Inl noApiKey) call = Inl noApiKey"
  by (simp add: generateStyleSuggestion_def)

text \<open>
  Claim C10. When the model call returns and its text is undefined, empty or made of
  white space only, \<open>generateStyleSuggestion\<close> returns the empty string, which is not
  the default description: the default is kept for the raising call.
\<close>

theorem generateStyleSuggestion_blank_response:
  assumes "case resp of None \<Rightarrow> True | Some t \<Rightarrow> list_all isWhiteSpace t"
  shows "generateStyleSuggestion (Inr ()) (Inr resp) = Inr [] \<and>
         generateStyleSuggestion (Inr ()) (Inr resp) \<noteq> Inr defaultStyleSuggestion"
  using assms defaultStyleSuggestion_nonempty
  by (cases resp)
     (auto simp: generateStyleSuggestion_def try_catch_def or_else_def trim_whitespace_only)

theorem generateStyleSuggestion_blank_response_witness:
  "list_all isWhiteSpace (ascii '' '' @ [0x0A]) \<and>
   generateStyleSuggestion (Inr ()) (Inr (Some (ascii '' '' @ [0x0A]))) = Inr [] \<and>
   generateStyleSuggestion (Inr ()) (Inr (Some (ascii '' '' @ [0x0A]))) \<noteq>
     Inr defaultStyleSuggestion"
proof -
  have w: "list_all isWhiteSpace (ascii '' '' @ [0x0A])"
    by (simp add: ascii_def isWhiteSpace_def)
  then have c: "case Some (ascii '' '' @ [0x0A]) of None \<Rightarrow> True
                | Some t \<Rightarrow> list_all isWhiteSpace t"
    by simp
  show ?thesis
    using w generateStyleSuggestion_blank_response [OF c] by blast
qed

subsection \<open>Caption\<close>

text \<open>
  Claim C1, at the input where it fails. The client is constructed, the model call
  raises, the random number selects the first sentence and the product description has
  100 characters: the
  caption returned is the first fallback sentence around the description, 186 code
  units long, which is more than 160. The text of the model is cut to 160 code units
  (\<open>generateAdCaption_model_text\<close>); the fallback sentence is not.
\<close>

theorem generateAdCaption_fallback_exceeds_160:
  "generateAdCaption (Inr ()) (Inl (Error None)) random_zero longDescription =
     Inr (frases longDescription ! 0) \<and>
   length (frases longDescription ! 0) = 186 \<and>
   longDescription \<noteq> []"
proof -
  have "length (frases longDescription ! 0) = 86 + length longDescription"
    using frases_nth_length [of 0 longDescription] by simp
  then show ?thesis
    by (simp add: generateAdCaption_raised random_index_zero longDescription_def)
qed

subsection \<open>Image\<close>

lemma findInlinePart_find:
  assumes "firstCandidateReadable r"
  shows "findInlinePart r = Inr (find hasInlineData (firstCandidateParts r))"
proof -
  have eq: "(\<lambda>p. inlineData p \<noteq> None) = hasInlineData"
    by (simp add: hasInlineData_def fun_eq_iff)
  show ?thesis
    using assms
    unfolding findInlinePart_def firstCandidateParts_def candidateParts_def
      firstCandidateReadable_def eq
    by (auto split: option.splits list.splits)
qed

lemma find_hasInlineData:
  "find hasInlineData ps = Some p \<Longrightarrow> \<exists>d. inlineData p = Some d"
  by (auto simp: find_Some_iff hasInlineData_def)

text \<open>
  A first candidate whose content has no parts makes the client raise a TypeError, not
  its own image failure.
\<close>

lemma generateTextImage_unreadable:
  assumes "\<not> firstCandidateReadable r"
  shows "generateTextImage (Inr ()) (Inr r) = Inl typeError"
  using assms
  by (auto simp: generateTextImage_def findInlinePart_def firstCandidateReadable_def
      split: option.splits list.splits)

lemma generateTextImage_contentWithoutParts:
  "generateTextImage (Inr ()) (Inr contentWithoutParts) = Inl typeError"
  by (simp add: generateTextImage_def findInlinePart_def contentWithoutParts_def)

text \<open>
  Claim C6, as amended. For a response that the provider returned and whose first
  candidate can be read, \<open>generateTextImage\<close> raises \<open>Falha ao gerar imagem.\<close> exactly
  when the first candidate of the response has no part with inline data. Otherwise it
  returns the data of the first such part of the first candidate, with the encoding
  kind of that part, or \<open>image/png\<close> when the part names none. There is no fallback: a
  call that raised raises the same error, and so does a client that could not be
  constructed.
\<close>

theorem generateTextImage_first_candidate:
  assumes "firstCandidateReadable r"
  shows "(generateTextImage (Inr ()) (Inr r) = Inl falhaImagem \<longleftrightarrow>
            \<not> list_ex hasInlineData (firstCandidateParts r)) \<and>
         (list_ex hasInlineData (firstCandidateParts r) \<longrightarrow>
            (\<exists>p d. find hasInlineData (firstCandidateParts r) = Some p \<and>
               inlineData p = Some d \<and>
               generateTextImage (Inr ()) (Inr r) =
                 Inr (data d, or_else (mimeType d) (ascii ''image/png'')))) \<and>
         generateTextImage (Inr ()) (Inl e) = Inl e \<and>
         generateTextImage (Inl e) call = Inl e"
proof (cases "find hasInlineData (firstCandidateParts r)")
  case None
  then have "\<not> list_ex hasInlineData (firstCandidateParts r)"
    by (simp add: find_None_iff list_ex_iff)
  with None show ?thesis
    by (simp add: generateTextImage_def findInlinePart_find [OF assms])
next
  case (Some p)
  then obtain d where d: "inlineData p = Some d"
    using find_hasInlineData by blast
  from Some have "list_ex hasInlineData (firstCandidateParts r)"
    by (auto simp: find_Some_iff list_ex_iff)
  with Some d show ?thesis
    by (simp add: generateTextImage_def findInlinePart_find [OF assms])
qed

theorem generateTextImage_first_candidate_witness:
  "firstCandidateReadable imageWithoutMimeType \<and>
   generateTextImage (Inr ()) (Inr imageWithoutMimeType) \<noteq> Inl falhaImagem \<and>
   list_ex hasInlineData (firstCandidateParts imageWithoutMimeType) \<and>
   generateTextImage (Inr ()) (Inr imageWithoutMimeType) =
     Inr (ascii ''iVBORw0KGgo='', ascii ''image/png'') \<and>
   generateTextImage (Inr ()) (Inl (Error None)) = Inl (Error None)"
proof -
  have rd: "firstCandidateReadable imageWithoutMimeType"
    by (simp add: imageWithoutMimeType_def firstCandidateReadable_def oneCandidate_def)
  have ex: "list_ex hasInlineData (firstCandidateParts imageWithoutMimeType)"
    by (simp add: imageWithoutMimeType_def firstCandidateParts_def candidateParts_def
        oneCandidate_def textOnly_def inlineImage_def hasInlineData_def)
  have f: "find hasInlineData (firstCandidateParts imageWithoutMimeType) =
           Some (inlineImage (ascii ''iVBORw0KGgo='') None)"
    by (simp add: imageWithoutMimeType_def firstCandidateParts_def candidateParts_def
        oneCandidate_def textOnly_def inlineImage_def hasInlineData_def)
  show ?thesis
    using generateTextImage_first_candidate [OF rd, of "Error None"] rd ex f
    by (auto simp: inlineImage_def or_else_def)
qed

text \<open>
  Claim C6 as stated fails. A response whose second candidate carries an inline image
  contains a part with an inline image, and \<open>generateTextImage\<close> raises all the same;
  and for an inline image without encoding kind the kind returned, \<open>image/png\<close>, is
  not taken from the part.
\<close>

theorem generateTextImage_whole_response_counterexample:
  "list_ex hasInlineData (responseParts secondCandidateImage) \<and>
   generateTextImage (Inr ()) (Inr secondCandidateImage) = Inl falhaImagem \<and>
   map (map_option mimeType) (map inlineData (responseParts imageWithoutMimeType)) =
     [None, Some None] \<and>
   generateTextImage (Inr ()) (Inr imageWithoutMimeType) =
     Inr (ascii ''iVBORw0KGgo='', ascii ''image/png'')"
  by (simp add: generateTextImage_def findInlinePart_def responseParts_def candidateParts_def
      secondCandidateImage_def imageWithoutMimeType_def oneCandidate_def textOnly_def
      inlineImage_def hasInlineData_def or_else_def)

subsection \<open>Video poll loop\<close>

lemma poll_loop_done:
  "op_done operation \<Longrightarrow> poll_loop polls k operation events = Some (Inr operation, events)"
  by (simp add: poll_loop.simps)

lemma poll_loop_step:
  "\<not> op_done operation \<Longrightarrow> polls k = Inr operation' \<Longrightarrow>
   poll_loop polls k operation events = poll_loop polls (Suc k) operation' (events @ pollRound)"
  by (subst poll_loop.simps) (simp add: pollRound_def)

lemma poll_loop_raise:
  "\<not> op_done operation \<Longrightarrow> polls k = Inl e \<Longrightarrow>
   poll_loop polls k operation events = Some (Inl e, events @ pollRound)"
  by (subst poll_loop.simps) (simp add: pollRound_def)

lemma poll_loop_from:
  assumes "\<not> op_done operation"
    and "\<forall>i<N. \<exists>operation'. polls (k + i) = Inr operation' \<and> \<not> op_done operation'"
    and "polls (k + N) = Inr completed"
    and "op_done completed"
  shows "poll_loop polls k operation events =
           Some (Inr completed, events @ concat (replicate (Suc N) pollRound))"
  using assms
proof (induction N arbitrary: k operation events)
  case 0
  then show ?case
    by (simp add: poll_loop_step poll_loop_done)
next
  case (Suc N)
  from Suc.prems(2) obtain operation' where
    first: "polls k = Inr operation'" "\<not> op_done operation'"
    by (metis add.right_neutral zero_less_Suc)
  have rest: "\<forall>i<N. \<exists>operation''. polls (Suc k + i) = Inr operation'' \<and> \<not> op_done operation''"
    using Suc.prems(2) by (metis Suc_less_eq add_Suc_shift)
  have last: "polls (Suc k + N) = Inr completed"
    using Suc.prems(3) by simp
  have "poll_loop polls k operation events =
        poll_loop polls (Suc k) operation' (events @ pollRound)"
    using Suc.prems(1) first(1) by (rule poll_loop_step)
  also have "\<dots> = Some (Inr completed, (events @ pollRound) @ concat (replicate (Suc N) pollRound))"
    using first(2) rest last Suc.prems(4) by (rule Suc.IH)
  finally show ?case by simp
qed

text \<open>
  The loop returns only once the operation is done or a status check raised; when
  every status check reports an operation that is not done, it never returns.
\<close>

lemma poll_loop_returns_only_after_done:
  assumes "poll_loop polls k operation events = Some result"
  shows "op_done operation \<or>
         (\<exists>i. k \<le> i \<and> (case polls i of Inl e \<Rightarrow> True | Inr operation' \<Rightarrow> op_done operation'))"
proof (rule poll_loop.raw_induct
    [where P = "\<lambda>polls k operation events result. op_done operation \<or>
         (\<exists>i. k \<le> i \<and> (case polls i of Inl e \<Rightarrow> True | Inr operation' \<Rightarrow> op_done operation'))",
     OF _ assms], goal_cases)
  case (1 loop polls k operation events result)
  show ?case
  proof (cases "op_done operation")
    case True
    then show ?thesis by simp
  next
    case False
    show ?thesis
    proof (cases "polls k")
      case (Inl e)
      then show ?thesis by (auto intro!: exI [of _ k])
    next
      case (Inr operation')
      with 1(2) False
      have "loop polls (Suc k) operation' (events @ [Sleep 5000, GetVideosOperation]) = Some result"
        by simp
      then have "op_done operation' \<or>
          (\<exists>i\<ge>Suc k. case polls i of Inl e \<Rightarrow> True | Inr operation' \<Rightarrow> op_done operation')"
        by (rule 1(1))
      then consider "op_done operation'"
        | i where "Suc k \<le> i"
            "case polls i of Inl e \<Rightarrow> True | Inr operation' \<Rightarrow> op_done operation'"
        by blast
      then show ?thesis
      proof cases
        case 1
        with Inr show ?thesis by (auto intro!: exI [of _ k])
      next
        case 2
        then show ?thesis by (auto intro!: exI [of _ i])
      qed
    qed
  qed
qed

lemma poll_loop_never_done:
  assumes "\<not> op_done operation"
    and "\<And>i. \<exists>operation'. polls i = Inr operation' \<and> \<not> op_done operation'"
  shows "poll_loop polls k operation events = None"
proof (rule ccontr)
  assume "poll_loop polls k operation events \<noteq> None"
  then obtain result where "poll_loop polls k operation events = Some result" by blast
  from poll_loop_returns_only_after_done [OF this] assms(1)
  obtain i where "case polls i of Inl e \<Rightarrow> True | Inr operation' \<Rightarrow> op_done operation'"
    by blast
  with assms(2) [of i] show False by auto
qed

lemma poll_loop_trace:
  assumes "\<not> op_done submitted"
    and "\<forall>i<N. \<exists>operation'. polls i = Inr operation' \<and> \<not> op_done operation'"
    and "polls N = Inr completed"
    and "op_done completed"
  shows "poll_loop polls 0 submitted [] =
           Some (Inr completed, concat (replicate (N + 1) [Sleep 5000, GetVideosOperation]))"
proof -
  have "poll_loop polls 0 submitted [] =
          Some (Inr completed, [] @ concat (replicate (Suc N) pollRound))"
    using assms by (intro poll_loop_from) simp_all
  then show ?thesis by (simp add: pollRound_def)
qed

lemma count_status_checks:
  "length (filter (\<lambda>ev. ev = GetVideosOperation)
     (concat (replicate n [Sleep 5000, GetVideosOperation]))) = n"
  by (induction n) simp_all

text \<open>
  Claim C3. The client is constructed and the job submitted; the submitted operation is
  still running, the first \<open>N\<close> status checks report an operation that is not done and
  the next one reports a completed operation. Then the poll loop of
  \<open>generateTextVideo\<close> ends with that completed operation, and \<open>generateTextVideo\<close>
  returns what it makes of it, the fetched video when the operation carries a URI and
  the video failure when it carries none, after exactly \<open>N + 1\<close> status checks, each
  of them right after a delay of 5000 ms, and nothing else in between.
\<close>

theorem generateTextVideo_poll_checks:
  assumes "\<not> op_done submitted"
    and "\<forall>i<N. \<exists>operation'. polls i = Inr operation' \<and> \<not> op_done operation'"
    and "polls N = Inr completed"
    and "op_done completed"
  shows "\<exists>events.
           poll_loop polls 0 submitted [] = Some (Inr completed, events) \<and>
           generateTextVideo (Inr ()) (Inr submitted) polls fetch =
             Some (case resultUri completed of
                     None \<Rightarrow> Inl falhaVideo
                   | Some u \<Rightarrow> if u = [] then Inl falhaVideo else fetch,
                   events) \<and>
           events = concat (replicate (N + 1) [Sleep 5000, GetVideosOperation]) \<and>
           length (filter (\<lambda>ev. ev = GetVideosOperation) events) = N + 1"
proof -
  let ?events = "concat (replicate (N + 1) [Sleep 5000, GetVideosOperation])"
  have loop: "poll_loop polls 0 submitted [] = Some (Inr completed, ?events)"
    using assms by (rule poll_loop_trace)
  have "generateTextVideo (Inr ()) (Inr submitted) polls fetch =
          Some (case resultUri completed of
                  None \<Rightarrow> Inl falhaVideo
                | Some u \<Rightarrow> if u = [] then Inl falhaVideo else fetch,
                ?events)"
    by (simp add: generateTextVideo_def loop split: option.splits)
  moreover have "length (filter (\<lambda>ev. ev = GetVideosOperation) ?events) = N + 1"
    by (rule count_status_checks)
  ultimately show ?thesis using loop by blast
qed

theorem generateTextVideo_poll_checks_witness:
  "generateTextVideo (Inr ()) (Inr running)
     (notDoneThenDone 2 (completedWith (Some (ascii ''https://v.example/1?a=b''))))
     (Inr (ascii ''blob:video'')) =
     Some (Inr (ascii ''blob:video''),
           [Sleep 5000, GetVideosOperation, Sleep 5000, GetVideosOperation,
            Sleep 5000, GetVideosOperation])"
proof -
  let ?completed = "completedWith (Some (ascii ''https://v.example/1?a=b''))"
  have a: "\<not> op_done running" by (simp add: running_def)
  have b: "\<forall>i<2. \<exists>operation'. notDoneThenDone 2 ?completed i = Inr operation' \<and>
             \<not> op_done operation'"
    by (simp add: notDoneThenDone_def running_def)
  have c: "notDoneThenDone 2 ?completed 2 = Inr ?completed"
    by (simp add: notDoneThenDone_def)
  have d: "op_done ?completed" by (simp add: completedWith_def)
  have u: "resultUri ?completed = Some (ascii ''https://v.example/1?a=b'')"
    by (simp add: resultUri_def completedWith_def)
  have n: "ascii ''https://v.example/1?a=b'' \<noteq> []" by (simp add: ascii_def)
  show ?thesis
    using generateTextVideo_poll_checks [OF a b c d, of "Inr (ascii ''blob:video'')"] u n
    by (auto simp: numeral_eq_Suc)
qed

section \<open>Properties of the controller\<close>

subsection \<open>Running a handler\<close>

lemma generateTextVideo_no_uri:
  assumes "generateVideos' = Inr submitted"
    and "poll_loop polls 0 submitted [] = Some (Inr completed, events)"
    and "resultUri completed = None \<or> resultUri completed = Some []"
  shows "generateTextVideo (Inr ()) generateVideos' polls fetch = Some (Inl falhaVideo, events)"
  using assms by (auto simp: generateTextVideo_def)

lemma run_append: "run (xs @ ys) a = run ys (run xs a)"
  by (simp add: run_def)

lemma run_begin_ready:
  "run (beginActions @ imageReadyActions cap mime b64) a =
     a\<lparr>state := GENERATING_VIDEO, videoSrc := None, imageSrc := Some (dataUrl mime b64),
       adCaption := cap,
       statusMessage := ascii ''Criando v'' @ [0xED] @ ascii ''deo com legenda est'' @ [0xE9] @
         ascii ''tica...''\<rparr>"
  by (simp add: run_def beginActions_def imageReadyActions_def)

lemma run_catchBlock:
  "run (catchBlock (Error m)) a =
     a\<lparr>statusMessage := or_else m (ascii ''Erro ao processar.''), state := ERROR\<rparr>"
  by (simp add: run_def catchBlock_def)

lemma run_catchBlock_Nullish: "run (before @ catchBlock Nullish) a = run before a"
  by (simp add: run_def catchBlock_def)

lemma run_catchBlock_falhaVideo:
  "run (catchBlock falhaVideo) a =
     a\<lparr>statusMessage := ascii ''Falha ao gerar v'' @ [0xED] @ ascii ''deo.'', state := ERROR\<rparr>"
  by (simp add: falhaVideo_def run_catchBlock or_else_def ascii_def)

lemma poll_loop_notDoneThenDone:
  "op_done completed \<Longrightarrow>
   poll_loop (notDoneThenDone N completed) 0 running [] =
     Some (Inr completed, concat (replicate (Suc N) pollRound))"
  using poll_loop_from [of running N "notDoneThenDone N completed" 0 completed "[]"]
  by (simp add: notDoneThenDone_def running_def)

lemma trim_Mesa: "trim (ascii ''Mesa'') = ascii ''Mesa''"
  by (simp add: trim_def ascii_def isWhiteSpace_def)

lemma image_imageWithoutMimeType:
  "generateTextImage (Inr ()) (Inr imageWithoutMimeType) =
     Inr (ascii ''iVBORw0KGgo='', ascii ''image/png'')"
  by (simp add: generateTextImage_def findInlinePart_def imageWithoutMimeType_def
      oneCandidate_def textOnly_def inlineImage_def or_else_def)

lemma generateTextImage_returned:
  "generateTextImage client call = Inr img \<Longrightarrow> client = Inr ()"
  by (cases client) (simp_all add: generateTextImage_def)

text \<open>
  The catch block either sets \<open>ERROR\<close> or, for a thrown \<open>undefined\<close> or \<open>null\<close>, leaves
  the state where the run had brought it.
\<close>

lemma state_run_catchBlock:
  "state (run (before @ catchBlock err) a) = ERROR \<or>
   state (run (before @ catchBlock err) a) = state (run before a)"
  by (cases err) (simp_all add: run_append run_catchBlock catchBlock_def run_def)

lemma startProcess_shape:
  assumes "startProcess env a = Some actions"
  shows "actions = [] \<or> actions = [SetShowKeyDialog True] \<or>
         (\<exists>before err. actions = before @ catchBlock err \<and> state (run before a) \<noteq> PLAYING) \<or>
         (\<exists>generatedCaption mime b64Image videoUrl.
            generatedCaption \<noteq> [] \<and>
            actions = beginActions @ imageReadyActions generatedCaption mime b64Image @
                      [SetVideoSrc (Some videoUrl), SetState PLAYING])"
proof (cases "trim (inputText a) = [] \<or> hasSelectedApiKey env \<noteq> Some True")
  case True
  with assms show ?thesis by (auto simp: startProcess_def split: if_splits)
next
  case False
  have s0: "state (run beginActions a) \<noteq> PLAYING"
    by (simp add: run_def beginActions_def)
  have s1: "state (run (beginActions @ [SetAdCaption cap]) a) \<noteq> PLAYING" for cap
    by (simp add: run_def beginActions_def)
  have s2: "state (run (beginActions @ imageReadyActions cap mime b64) a) \<noteq> PLAYING"
    for cap mime b64
    by (simp add: run_begin_ready)
  show ?thesis
  proof (cases "getAI env")
    case (Inl err)
    with assms False have "actions = beginActions @ catchBlock err"
      by (simp add: startProcess_def generateAdCaption_no_client)
    with s0 show ?thesis by blast
  next
    case client: (Inr u)
    then have client': "getAI env = Inr ()" by simp
    obtain cap where
      cap: "generateAdCaption (Inr ()) (captionCall env) (mathRandom env) (inputText a) = Inr cap"
      and len: "5 \<le> length cap"
      using generateAdCaption_returns by blast
    from len have ne: "cap \<noteq> []" by auto
    show ?thesis
    proof (cases "generateTextImage (Inr ()) (imageCall env)")
      case (Inl err)
      with assms False cap client'
      have "actions = (beginActions @ [SetAdCaption cap]) @ catchBlock err"
        by (simp add: startProcess_def)
      with s1 show ?thesis by blast
    next
      case image: (Inr img)
      obtain b64 mime where img: "img = (b64, mime)" by (cases img)
      show ?thesis
      proof (cases "generateTextVideo (Inr ()) (generateVideos env) (getVideosOperation env)
                      (fetchVideo env)")
        case None
        with assms False cap client' image img show ?thesis by (simp add: startProcess_def)
      next
        case (Some res)
        obtain outcome events where res: "res = (outcome, events)" by (cases res)
        show ?thesis
        proof (cases outcome)
          case (Inl err)
          with assms False cap client' image img Some res
          have "actions = (beginActions @ imageReadyActions cap mime b64) @ catchBlock err"
            by (simp add: startProcess_def)
          with s2 show ?thesis by blast
        next
          case (Inr videoUrl)
          with assms False cap client' image img Some res
          have "actions = beginActions @ imageReadyActions cap mime b64 @
                  [SetVideoSrc (Some videoUrl), SetState PLAYING]"
            by (simp add: startProcess_def)
          with ne show ?thesis by blast
        qed
      qed
    qed
  qed
qed

lemma viewStates_success:
  "state a = IDLE \<Longrightarrow>
   viewStates (beginActions @ imageReadyActions cap mime b64 @
               [SetVideoSrc (Some videoUrl), SetState PLAYING]) a =
     [IDLE, GENERATING_IMAGE, GENERATING_VIDEO, PLAYING]"
  by (simp add: viewStates_def beginActions_def imageReadyActions_def)

lemma population_success:
  "cap \<noteq> [] \<Longrightarrow>
   population (beginActions @ imageReadyActions cap mime b64 @
               [SetVideoSrc (Some videoUrl), SetState PLAYING]) =
     [SetAdCaption cap, SetImageSrc (Some (dataUrl mime b64)), SetVideoSrc (Some videoUrl)]"
  by (simp add: population_def beginActions_def imageReadyActions_def)

lemma caption_successfulProvider:
  "generateAdCaption (Inr ()) (Inr (Some (ascii ''Mesa nova, compre hoje!''))) r d =
     Inr (ascii ''Mesa nova, compre hoje!'')"
  by (simp add: generateAdCaption_def try_catch_def textoIA_def slice0_def trim_def ascii_def
      isWhiteSpace_def)

lemma video_successfulProvider:
  "generateTextVideo (Inr ()) (Inr running)
     (notDoneThenDone 2 (completedWith (Some (ascii ''https://v.example/1?a=b''))))
     (Inr (ascii ''blob:video'')) =
     Some (Inr (ascii ''blob:video''), concat (replicate 3 pollRound))"
proof -
  have "poll_loop (notDoneThenDone 2 (completedWith (Some (ascii ''https://v.example/1?a=b''))))
          0 running [] =
        Some (Inr (completedWith (Some (ascii ''https://v.example/1?a=b''))),
              concat (replicate (Suc 2) pollRound))"
    by (rule poll_loop_notDoneThenDone) (simp add: completedWith_def)
  then show ?thesis
    by (simp add: generateTextVideo_def resultUri_def completedWith_def ascii_def numeral_eq_Suc)
qed

lemma startProcess_successfulProvider:
  assumes "inputText a = ascii ''Mesa''"
  shows "startProcess successfulProvider a =
     Some (beginActions @
           imageReadyActions (ascii ''Mesa nova, compre hoje!'') (ascii ''image/png'')
             (ascii ''iVBORw0KGgo='') @
           [SetVideoSrc (Some (ascii ''blob:video'')), SetState PLAYING])"
proof -
  have "trim (inputText a) \<noteq> []"
    by (simp add: assms trim_Mesa) (simp add: ascii_def)
  then show ?thesis
    by (simp add: startProcess_def successfulProvider_def caption_successfulProvider
        image_imageWithoutMimeType video_successfulProvider)
qed

subsection \<open>A video without URI\<close>

text \<open>
  Claim C7. The text is not blank, a key is selected and the image is there (so the
  client could be constructed); the video job was submitted and the poll loop returned a completed operation that carries no
  result URI (absent or empty). Then \<open>generateTextVideo\<close> raises its
  video-generation failure, and \<open>startProcess\<close> makes, after setting the image, no
  further call that touches the image or the video: it ends in \<open>ERROR\<close> with the
  image as it was set, no video, and the message of the failure as status.
\<close>

theorem missing_video_uri_ends_in_error:
  assumes "trim (inputText a) \<noteq> []"
    and "hasSelectedApiKey env = Some True"
    and "generateTextImage (getAI env) (imageCall env) = Inr (b64Image, mime)"
    and "generateVideos env = Inr submitted"
    and "poll_loop (getVideosOperation env) 0 submitted [] = Some (Inr completed, events)"
    and "resultUri completed = None \<or> resultUri completed = Some []"
  shows "generateTextVideo (getAI env) (generateVideos env) (getVideosOperation env)
           (fetchVideo env) =
           Some (Inl falhaVideo, events) \<and>
         (\<exists>generatedCaption final.
            startProcess env a =
              Some (beginActions @ imageReadyActions generatedCaption mime b64Image @
                    catchBlock falhaVideo) \<and>
            afterStartProcess env a = Some final \<and>
            state final = ERROR \<and>
            imageSrc final = Some (dataUrl mime b64Image) \<and>
            videoSrc final = None \<and>
            statusMessage final = ascii ''Falha ao gerar v'' @ [0xED] @ ascii ''deo.'')"
proof -
  have client: "getAI env = Inr ()"
    using assms(3) by (rule generateTextImage_returned)
  have video: "generateTextVideo (getAI env) (generateVideos env) (getVideosOperation env)
                 (fetchVideo env) =
                 Some (Inl falhaVideo, events)"
    unfolding client using assms(4-6) by (rule generateTextVideo_no_uri)
  obtain cap where
    cap: "generateAdCaption (getAI env) (captionCall env) (mathRandom env) (inputText a) = Inr cap"
    unfolding client using generateAdCaption_returns by blast
  have sp: "startProcess env a =
              Some (beginActions @ imageReadyActions cap mime b64Image @ catchBlock falhaVideo)"
    using assms(1-3) cap video by (simp add: startProcess_def)
  let ?final = "run (beginActions @ imageReadyActions cap mime b64Image @ catchBlock falhaVideo) a"
  have fin: "afterStartProcess env a = Some ?final"
    by (simp add: afterStartProcess_def sp)
  have "state ?final = ERROR" "imageSrc ?final = Some (dataUrl mime b64Image)"
    "videoSrc ?final = None"
    "statusMessage ?final = ascii ''Falha ao gerar v'' @ [0xED] @ ascii ''deo.''"
    using run_begin_ready [of cap mime b64Image a]
    by (simp_all add: run_append [of "beginActions @ imageReadyActions cap mime b64Image", simplified]
        run_catchBlock_falhaVideo)
  with video sp fin show ?thesis by blast
qed

theorem missing_video_uri_ends_in_error_witness:
  "generateTextVideo (getAI noUriProvider) (generateVideos noUriProvider)
     (getVideosOperation noUriProvider) (fetchVideo noUriProvider) =
     Some (Inl falhaVideo,
           [Sleep 5000, GetVideosOperation, Sleep 5000, GetVideosOperation,
            Sleep 5000, GetVideosOperation]) \<and>
   map_option state (afterStartProcess noUriProvider idleApp) = Some ERROR \<and>
   map_option imageSrc (afterStartProcess noUriProvider idleApp) =
     Some (Some (ascii ''data:image/png;base64,iVBORw0KGgo='')) \<and>
   map_option videoSrc (afterStartProcess noUriProvider idleApp) = Some None"
proof -
  have h1: "trim (inputText idleApp) \<noteq> []"
    by (simp add: idleApp_def trim_Mesa) (simp add: ascii_def)
  have h2: "hasSelectedApiKey noUriProvider = Some True"
    by (simp add: noUriProvider_def successfulProvider_def)
  have h3: "generateTextImage (getAI noUriProvider) (imageCall noUriProvider) =
              Inr (ascii ''iVBORw0KGgo='', ascii ''image/png'')"
    by (simp add: noUriProvider_def successfulProvider_def image_imageWithoutMimeType)
  have h4: "generateVideos noUriProvider = Inr running"
    by (simp add: noUriProvider_def successfulProvider_def)
  have h5: "poll_loop (getVideosOperation noUriProvider) 0 running [] =
              Some (Inr (completedWith None),
                    [Sleep 5000, GetVideosOperation, Sleep 5000, GetVideosOperation,
                     Sleep 5000, GetVideosOperation])"
    using poll_loop_notDoneThenDone [of "completedWith None" 2]
    by (simp add: noUriProvider_def successfulProvider_def completedWith_def pollRound_def
        numeral_eq_Suc)
  have h6: "resultUri (completedWith None) = None \<or> resultUri (completedWith None) = Some []"
    by (simp add: resultUri_def completedWith_def)
  show ?thesis
    using missing_video_uri_ends_in_error [OF h1 h2 h3 h4 h5 h6]
    by (auto simp: dataUrl_def ascii_def)
qed

subsection \<open>A successful run\<close>

text \<open>
  Claim C2. A run of \<open>startProcess\<close> that starts in \<open>IDLE\<close> and ends in \<open>PLAYING\<close>
  takes \<open>state\<close> through exactly \<open>IDLE\<close>, \<open>GENERATING_IMAGE\<close>,
  \<open>GENERATING_VIDEO\<close>, \<open>PLAYING\<close>, and gives the result fields their values in the
  order caption, image, video, each once.
\<close>

theorem successful_run_sequence:
  assumes "state a = IDLE"
    and "startProcess env a = Some actions"
    and "state (run actions a) = PLAYING"
  shows "viewStates actions a = [IDLE, GENERATING_IMAGE, GENERATING_VIDEO, PLAYING] \<and>
         (\<exists>caption image videoUrl.
            population actions =
              [SetAdCaption caption, SetImageSrc (Some image), SetVideoSrc (Some videoUrl)])"
proof -
  from startProcess_shape [OF assms(2)]
  consider "actions = []" | "actions = [SetShowKeyDialog True]"
    | before err where "actions = before @ catchBlock err" "state (run before a) \<noteq> PLAYING"
    | cap mime b64 videoUrl where "cap \<noteq> []"
        "actions = beginActions @ imageReadyActions cap mime b64 @
                   [SetVideoSrc (Some videoUrl), SetState PLAYING]"
    by blast
  then show ?thesis
  proof cases
    case 1
    with assms(1,3) show ?thesis by (simp add: run_def)
  next
    case 2
    with assms(1,3) show ?thesis by (simp add: run_def)
  next
    case 3
    with assms(3) state_run_catchBlock [of before err a] show ?thesis by auto
  next
    case 4
    then show ?thesis
      using viewStates_success [OF assms(1)] population_success by simp
  qed
qed

theorem successful_run_sequence_witness:
  "startProcess successfulProvider idleApp =
     Some (beginActions @
           imageReadyActions (ascii ''Mesa nova, compre hoje!'') (ascii ''image/png'')
             (ascii ''iVBORw0KGgo='') @
           [SetVideoSrc (Some (ascii ''blob:video'')), SetState PLAYING]) \<and>
   viewStates
     (beginActions @
      imageReadyActions (ascii ''Mesa nova, compre hoje!'') (ascii ''image/png'')
        (ascii ''iVBORw0KGgo='') @
      [SetVideoSrc (Some (ascii ''blob:video'')), SetState PLAYING]) idleApp =
     [IDLE, GENERATING_IMAGE, GENERATING_VIDEO, PLAYING] \<and>
   population
     (beginActions @
      imageReadyActions (ascii ''Mesa nova, compre hoje!'') (ascii ''image/png'')
        (ascii ''iVBORw0KGgo='') @
      [SetVideoSrc (Some (ascii ''blob:video'')), SetState PLAYING]) =
     [SetAdCaption (ascii ''Mesa nova, compre hoje!''),
      SetImageSrc (Some (ascii ''data:image/png;base64,iVBORw0KGgo='')),
      SetVideoSrc (Some (ascii ''blob:video''))]"
proof -
  let ?actions = "beginActions @
      imageReadyActions (ascii ''Mesa nova, compre hoje!'') (ascii ''image/png'')
        (ascii ''iVBORw0KGgo='') @
      [SetVideoSrc (Some (ascii ''blob:video'')), SetState PLAYING]"
  have h1: "state idleApp = IDLE"
    by (simp add: idleApp_def)
  have h2: "startProcess successfulProvider idleApp = Some ?actions"
    by (rule startProcess_successfulProvider) (simp add: idleApp_def)
  have h3: "state (run ?actions idleApp) = PLAYING"
    by (simp add: run_def beginActions_def imageReadyActions_def)
  have pop: "population ?actions =
     [SetAdCaption (ascii ''Mesa nova, compre hoje!''),
      SetImageSrc (Some (ascii ''data:image/png;base64,iVBORw0KGgo='')),
      SetVideoSrc (Some (ascii ''blob:video''))]"
    by (simp add: population_def beginActions_def imageReadyActions_def dataUrl_def ascii_def)
  show ?thesis
    using h2 pop successful_run_sequence [OF h1 h2 h3] by simp
qed

text \<open>
  A submit that makes any setter call is such a run: it reached \<open>startProcess\<close>, which
  the submit control allows in \<open>IDLE\<close> only.
\<close>

lemma submit_started:
  assumes "submit env a = Some actions" and "actions \<noteq> []"
  shows "state a = IDLE \<and> startProcess env a = Some actions"
  using assms by (auto simp: submit_def submitDisabled_def split: if_splits)

subsection \<open>Submitting outside \<open>IDLE\<close>\<close>

text \<open>
  Claim C4. The only use of \<open>startProcess\<close> is the \<open>onSubmit\<close> of the creation form,
  and while \<open>state\<close> is not \<open>IDLE\<close> the form's submit control is disabled. A submit
  in any such state is a no-op: no setter is called and the component, with its state,
  image, video and caption, is unchanged.
\<close>

theorem submit_not_idle_noop:
  assumes "state a \<noteq> IDLE"
  shows "submit env a = Some [] \<and> afterSubmit env a = Some a"
  using assms by (simp add: afterSubmit_def submit_def submitDisabled_def run_def)

theorem submit_not_idle_noop_witness:
  "state errorApp \<noteq> IDLE \<and> submit successfulProvider errorApp = Some [] \<and>
   afterSubmit successfulProvider errorApp = Some errorApp"
proof -
  have h: "state errorApp \<noteq> IDLE" by (simp add: errorApp_def)
  show ?thesis using h submit_not_idle_noop [OF h] by simp
qed

subsection \<open>Sharing on Twitter\<close>

lemma includes_intentTweet: "includes_js intentTweet (ascii ''intent/tweet'')"
  by (simp add: intentTweet_def ascii_def)

lemma encode_share_text:
  "encodeURIComponent (ascii ''Mesa nova'' @ [0x0A, 0x0A] @ ascii ''https://loja.example/mesa'') =
     Inr (ascii ''Mesa%20nova%0A%0Ahttps%3A%2F%2Floja.example%2Fmesa'')"
  by (simp add: encodeURIComponent_def ascii_def uriUnescaped_def isLeadSurrogate_def
      isTrailSurrogate_def utf8_def percentOctets_def upperHexDigit_def)

text \<open>
  Claim C8, as amended. When the share text, the caption, two line feeds and the content
  link, encodes, \<open>handleShareTwitter\<close> opens a base URL followed by \<open>?text=\<close> and
  the encoded text. The base URL is the user's configured Twitter link only when that
  link contains \<open>intent/tweet\<close>; in every other case, a configured link without
  \<open>intent/tweet\<close> included, it is the generic share intent URL.
\<close>

theorem handleShareTwitter_url:
  assumes "encodeURIComponent (adCaption a @ [0x0A, 0x0A] @ contentUrl a) = Inr encoded"
  shows "handleShareTwitter a =
           Inr ((case configuredTwitter a of
                   None \<Rightarrow> intentTweet
                 | Some link \<Rightarrow>
                     if includes_js link (ascii ''intent/tweet'') then link else intentTweet) @
                ascii ''?text='' @ encoded)"
  using assms includes_intentTweet
  by (auto simp: handleShareTwitter_def configuredTwitter_def or_else_def Let_def
      split: option.splits)

theorem handleShareTwitter_url_witness:
  "handleShareTwitter (sharingApp (ascii ''https://x.com/intent/tweet'')) =
     Inr (ascii ''https://x.com/intent/tweet?text=Mesa%20nova%0A%0Ahttps%3A%2F%2Floja.example%2Fmesa'')"
proof -
  have e: "encodeURIComponent
             (adCaption (sharingApp (ascii ''https://x.com/intent/tweet'')) @ [0x0A, 0x0A] @
              contentUrl (sharingApp (ascii ''https://x.com/intent/tweet''))) =
           Inr (ascii ''Mesa%20nova%0A%0Ahttps%3A%2F%2Floja.example%2Fmesa'')"
    using encode_share_text by (simp add: sharingApp_def)
  have c: "configuredTwitter (sharingApp (ascii ''https://x.com/intent/tweet'')) =
           Some (ascii ''https://x.com/intent/tweet'')"
    by (simp add: configuredTwitter_def sharingApp_def profileObject_def joe_def getProperty_def
        ascii_def)
  have i: "includes_js (ascii ''https://x.com/intent/tweet'') (ascii ''intent/tweet'')"
    by (simp add: ascii_def)
  show ?thesis
    using handleShareTwitter_url [OF e] by (simp add: c i) (simp add: ascii_def)
qed

text \<open>
  Claim C8 as stated fails: the user has configured a personal link, an ordinary profile
  URL, and the URL opened is the generic share intent URL, not one built from that
  link.
\<close>

theorem handleShareTwitter_profile_link_counterexample:
  "configuredTwitter (sharingApp (ascii ''https://twitter.com/joe'')) =
     Some (ascii ''https://twitter.com/joe'') \<and>
   handleShareTwitter (sharingApp (ascii ''https://twitter.com/joe'')) =
     Inr (ascii ''https://twitter.com/intent/tweet?text=Mesa%20nova%0A%0Ahttps%3A%2F%2Floja.example%2Fmesa'')"
proof -
  have c: "configuredTwitter (sharingApp (ascii ''https://twitter.com/joe'')) =
     Some (ascii ''https://twitter.com/joe'')"
    by (simp add: configuredTwitter_def sharingApp_def profileObject_def joe_def getProperty_def
        ascii_def)
  have e: "encodeURIComponent
             (adCaption (sharingApp (ascii ''https://twitter.com/joe'')) @ [0x0A, 0x0A] @
              contentUrl (sharingApp (ascii ''https://twitter.com/joe''))) =
           Inr (ascii ''Mesa%20nova%0A%0Ahttps%3A%2F%2Floja.example%2Fmesa'')"
    using encode_share_text by (simp add: sharingApp_def)
  have i: "\<not> includes_js (ascii ''https://twitter.com/joe'') (ascii ''intent/tweet'')"
    by (simp add: ascii_def)
  have "handleShareTwitter (sharingApp (ascii ''https://twitter.com/joe'')) =
          Inr (intentTweet @ ascii ''?text='' @
               ascii ''Mesa%20nova%0A%0Ahttps%3A%2F%2Floja.example%2Fmesa'')"
    using c i e
    by (auto simp: handleShareTwitter_def or_else_def configuredTwitter_def Let_def
        split: option.splits if_splits)
  then show ?thesis using c by (simp add: intentTweet_def ascii_def)
qed

section \<open>Properties of the profile store\<close>

subsection \<open>JSON.parse after JSON.stringify\<close>

lemma hex_all: "\<forall>k\<in>set [0..<16]. hexValue (hexDigit k) = Some k"
  by code_simp

lemma hexValue_hexDigit: "k < 16 \<Longrightarrow> hexValue (hexDigit k) = Some k"
  using hex_all by (simp del: upt.simps)

lemma unat16_bound: "unat (c :: 16 word) < 65536"
  using unsigned_less [of c, where 'a = nat] by simp

lemma hex4_value:
  "((n div 4096 * 16 + n div 256 mod 16) * 16 + n div 16 mod 16) * 16 + n mod 16 = (n::nat)"
proof -
  have a: "n div 16 mod 16 * 16 + n mod 16 = n mod 256"
    using mod_mult2_eq [of n 16 16] by simp
  have b: "n div 256 mod 16 * 256 + n mod 256 = n mod 4096"
    using mod_mult2_eq [of n 256 16] by simp
  have c: "n div 4096 * 4096 + n mod 4096 = n" by simp
  have "((n div 4096 * 16 + n div 256 mod 16) * 16 + n div 16 mod 16) * 16 + n mod 16
       = n div 4096 * 4096 + (n div 256 mod 16 * 256 + (n div 16 mod 16 * 16 + n mod 16))"
    by (simp add: algebra_simps)
  also have "\<dots> = n" by (simp only: a b c)
  finally show ?thesis .
qed


lemma parseChars_unicodeEscape:
  "parseChars (unicodeEscape c @ rest) = consChar c (parseChars rest)"
proof -
  have "unat c < 65536" by (rule unat16_bound)
  then have d: "unat c div 4096 < 16" by simp
  have "parseChars (unicodeEscape c @ rest) =
        consChar (of_nat (((unat c div 4096 * 16 + unat c div 256 mod 16) * 16 + unat c div 16 mod 16) * 16 + unat c mod 16)) (parseChars rest)"
    by (simp add: unicodeEscape_def hexValue_hexDigit d)
  also have "\<dots> = consChar c (parseChars rest)"
    by (simp only: hex4_value) simp
  finally show ?thesis .
qed


lemma parseChars_escape:
  "unescape e = Some u \<Longrightarrow> e \<noteq> 0x75 \<Longrightarrow>
   parseChars (0x5C # e # rest) = consChar u (parseChars rest)"
  by simp

lemma parseChars_plain:
  "c \<noteq> 0x22 \<Longrightarrow> c \<noteq> 0x5C \<Longrightarrow> \<not> c < 0x20 \<Longrightarrow>
   parseChars (c # rest) = consChar c (parseChars rest)"
  by simp

lemma parseChars_quoteUnit:
  "parseChars (quoteUnit c @ rest) = consChar c (parseChars rest)"
proof -
  consider "c = 0x08" | "c = 0x09" | "c = 0x0A" | "c = 0x0C" | "c = 0x0D" | "c = 0x22"
    | "c = 0x5C"
    | "c \<noteq> 0x08" "c \<noteq> 0x09" "c \<noteq> 0x0A" "c \<noteq> 0x0C" "c \<noteq> 0x0D" "c \<noteq> 0x22" "c \<noteq> 0x5C"
      "c < 0x20 \<or> isLeadSurrogate c \<or> isTrailSurrogate c"
    | "c \<noteq> 0x08" "c \<noteq> 0x09" "c \<noteq> 0x0A" "c \<noteq> 0x0C" "c \<noteq> 0x0D" "c \<noteq> 0x22" "c \<noteq> 0x5C"
      "\<not> (c < 0x20 \<or> isLeadSurrogate c \<or> isTrailSurrogate c)"
    by blast
  then show ?thesis
  proof cases
    case 1 then show ?thesis by (simp add: quoteUnit_def unescape_def parseChars_escape)
  next
    case 2 then show ?thesis by (simp add: quoteUnit_def unescape_def parseChars_escape)
  next
    case 3 then show ?thesis by (simp add: quoteUnit_def unescape_def parseChars_escape)
  next
    case 4 then show ?thesis by (simp add: quoteUnit_def unescape_def parseChars_escape)
  next
    case 5 then show ?thesis by (simp add: quoteUnit_def unescape_def parseChars_escape)
  next
    case 6 then show ?thesis by (simp add: quoteUnit_def unescape_def parseChars_escape)
  next
    case 7 then show ?thesis by (simp add: quoteUnit_def unescape_def parseChars_escape)
  next
    case 8
    then have "quoteUnit c = unicodeEscape c" by (simp add: quoteUnit_def)
    then show ?thesis by (simp only: parseChars_unicodeEscape)
  next
    case 9
    then have "quoteUnit c = [c]" by (simp add: quoteUnit_def)
    moreover have "\<not> c < 0x20" using 9 by simp
    ultimately show ?thesis using 9 by (simp add: parseChars_plain del: parseChars.simps)
  qed
qed

lemma parseChars_quoteChars:
  "parseChars (quoteChars s @ 0x22 # rest) = Some (s, rest)"
proof (induction s rule: quoteChars.induct)
  case (1 c d cs)
  show ?case
  proof (cases "isLeadSurrogate c \<and> isTrailSurrogate d")
    case True
    then have "c \<noteq> 0x22" "c \<noteq> 0x5C" "\<not> c < 0x20" "d \<noteq> 0x22" "d \<noteq> 0x5C" "\<not> d < 0x20"
      by (auto simp: isLeadSurrogate_def isTrailSurrogate_def word_le_nat_alt word_less_nat_alt)
    then have "parseChars (c # d # quoteChars cs @ 0x22 # rest)
        = consChar c (consChar d (parseChars (quoteChars cs @ 0x22 # rest)))"
      by (simp add: parseChars_plain del: parseChars.simps)
    with True 1 show ?thesis by (simp add: consChar_def del: parseChars.simps)
  next
    case False
    with 1 show ?thesis
      by (auto simp add: parseChars_quoteUnit consChar_def simp del: parseChars.simps)
  qed
next
  case (2 c)
  have "parseChars (quoteUnit c @ 0x22 # rest) = consChar c (parseChars (0x22 # rest))"
    by (rule parseChars_quoteUnit)
  then show ?case by (simp add: consChar_def)
next
  case 3
  show ?case by simp
qed

lemma parseString_QuoteJSONString:
  "parseString (QuoteJSONString s @ rest) = Some (s, rest)"
  by (simp add: parseString_def QuoteJSONString_def parseChars_quoteChars del: parseChars.simps)



lemma skipWs_Cons: "\<not> isJSONWhiteSpace c \<Longrightarrow> skipWs (c # s) = c # s"
  by (simp add: skipWs_def)

lemma skipWs_Quote: "skipWs (QuoteJSONString s @ rest) = QuoteJSONString s @ rest"
  by (simp add: QuoteJSONString_def skipWs_def isJSONWhiteSpace_def)


lemma parseMembers_member:
  assumes "c = 0x2C \<or> c = 0x7D"
  shows "parseMembers acc (QuoteJSONString k @ 0x3A # QuoteJSONString v @ c # rest) =
     (if c = 0x2C then parseMembers (setProperty k v acc) rest
      else Some (setProperty k v acc, rest))"
proof -
  have ws: "skipWs (0x3A # QuoteJSONString v @ c # rest) = 0x3A # QuoteJSONString v @ c # rest"
    by (simp add: skipWs_Cons isJSONWhiteSpace_def)
  have wc: "skipWs (c # rest) = c # rest"
    using assms by (auto simp: skipWs_Cons isJSONWhiteSpace_def)
  show ?thesis
    using assms
    by (subst parseMembers.simps)
       (auto simp add: skipWs_Quote parseString_QuoteJSONString ws wc)
qed

lemma parseMembers_stringifyMembers:
  "parseMembers acc (stringifyMembers (m # ms) @ 0x7D # rest) = Some (assign (m # ms) acc, rest)"
proof (induction ms arbitrary: m acc)
  case Nil
  obtain k v where m: "m = (k, v)" by (cases m)
  show ?case
    using parseMembers_member [where c = "0x7D" and acc = acc and k = k and v = v and rest = rest]
    by (simp add: m assign_def)
next
  case (Cons n ns)
  obtain k v where m: "m = (k, v)" by (cases m)
  have "parseMembers acc (stringifyMembers (m # n # ns) @ 0x7D # rest)
      = parseMembers (setProperty k v acc) (stringifyMembers (n # ns) @ 0x7D # rest)"
    using parseMembers_member [where c = "0x2C" and acc = acc and k = k and v = v
        and rest = "stringifyMembers (n # ns) @ 0x7D # rest"]
    by (simp add: m)
  then show ?case by (simp add: Cons.IH m assign_def)
qed

lemma setProperty_fresh: "k \<notin> fst ` set acc \<Longrightarrow> setProperty k v acc = acc @ [(k, v)]"
  by (induction acc) auto

lemma assign_distinct: "distinct (map fst (acc @ ms)) \<Longrightarrow> assign ms acc = acc @ ms"
proof (induction ms arbitrary: acc)
  case Nil
  then show ?case by (simp add: assign_def)
next
  case (Cons m ms)
  obtain k v where m: "m = (k, v)" by (cases m)
  from Cons.prems have fresh: "k \<notin> fst ` set acc" by (auto simp: m)
  have "assign (m # ms) acc = assign ms (acc @ [(k, v)])"
    by (simp add: assign_def m setProperty_fresh [OF fresh])
  also have "\<dots> = (acc @ [(k, v)]) @ ms"
    using Cons.prems by (intro Cons.IH) (simp add: m)
  finally show ?case by (simp add: m)
qed

lemma skipWs_stringifyMembers: "skipWs (stringifyMembers (m # ms) @ rest) = stringifyMembers (m # ms) @ rest"
proof -
  obtain k v where m: "m = (k, v)" by (cases m)
  show ?thesis
    by (cases ms) (simp_all add: m QuoteJSONString_def skipWs_def isJSONWhiteSpace_def)
qed

lemma JSON_roundtrip:
  assumes "distinct (map fst obj)"
  shows "JSON_parse (JSON_stringify obj) = Some obj"
proof (cases obj)
  case Nil
  then show ?thesis
    by (simp add: JSON_parse_def JSON_stringify_def skipWs_def isJSONWhiteSpace_def)
next
  case (Cons m ms)
  obtain k v where m: "m = (k, v)" by (cases m)
  have first: "stringifyMembers (m # ms) @ [0x7D] = 0x22 # tl (stringifyMembers (m # ms) @ [0x7D])"
    by (cases ms) (simp_all add: m QuoteJSONString_def)
  have "parseMembers [] (stringifyMembers (m # ms) @ [0x7D]) = Some (assign (m # ms) [], [])"
    using parseMembers_stringifyMembers [of "[]" m ms "[]"] by simp
  moreover have "assign (m # ms) [] = m # ms"
    using assms assign_distinct [of "[]" "m # ms"] by (simp add: Cons)
  ultimately have pm: "parseMembers [] (stringifyMembers (m # ms) @ [0x7D]) = Some (obj, [])"
    by (simp add: Cons)
  have sk: "skipWs (stringifyMembers (m # ms) @ [0x7D]) = 0x22 # tl (stringifyMembers (m # ms) @ [0x7D])"
    using skipWs_stringifyMembers [of m ms "[0x7D]"] first by simp
  show ?thesis
    unfolding JSON_parse_def JSON_stringify_def Cons
    by (simp add: skipWs_Cons isJSONWhiteSpace_def sk pm [unfolded Cons] del: stringifyMembers.simps)
       (simp add: skipWs_def)
qed

subsection \<open>Save, then load\<close>

lemma distinct_profileObject: "distinct (map fst (profileObject p))"
  by (simp add: profileObject_def ascii_def)

lemma JSON_stringify_nonempty: "JSON_stringify obj \<noteq> []"
  by (simp add: JSON_stringify_def)

lemma loadProfile_saveProfile:
  "loadProfile (snd (saveProfile p localStorage)) = Some [SetUserProfile (Some (profileObject p))]"
  by (simp add: loadProfile_def saveProfile_def Let_def JSON_stringify_nonempty
      JSON_roundtrip [OF distinct_profileObject])

lemma getProperty_profileObject:
  "getProperty (profileObject p) (ascii ''name'') = Some (name p)"
  "getProperty (profileObject p) (ascii ''phone'') = Some (phone p)"
  "getProperty (profileObject p) (ascii ''instagram'') = Some (instagram p)"
  "getProperty (profileObject p) (ascii ''twitter'') = Some (twitter p)"
  "getProperty (profileObject p) (ascii ''tiktok'') = Some (tiktok p)"
  by (simp_all add: getProperty_def profileObject_def ascii_def)

text \<open>
  Claim C9. For every profile and every store, the start-up effect run on the store that
  \<open>saveProfile\<close> leaves sets a profile that is the one \<open>saveProfile\<close> set, and each of
  its five properties is the string that was saved.
\<close>

theorem saveProfile_loadProfile_roundtrip:
  "\<exists>loaded reloaded.
     loadProfile (snd (saveProfile p localStorage)) = Some loaded \<and>
     userProfile (run loaded fresh) = Some reloaded \<and>
     userProfile (run (fst (saveProfile p localStorage)) a) = Some reloaded \<and>
     getProperty reloaded (ascii ''name'') = Some (name p) \<and>
     getProperty reloaded (ascii ''phone'') = Some (phone p) \<and>
     getProperty reloaded (ascii ''instagram'') = Some (instagram p) \<and>
     getProperty reloaded (ascii ''twitter'') = Some (twitter p) \<and>
     getProperty reloaded (ascii ''tiktok'') = Some (tiktok p)"
proof -
  have "userProfile (run [SetUserProfile (Some (profileObject p))] fresh) = Some (profileObject p)"
    by (simp add: run_def)
  moreover have "userProfile (run (fst (saveProfile p localStorage)) a) = Some (profileObject p)"
    by (simp add: saveProfile_def Let_def run_def)
  ultimately show ?thesis
    using loadProfile_saveProfile [of p localStorage] getProperty_profileObject [of p]
    by blast
qed

theorem saveProfile_loadProfile_roundtrip_witness:
  "\<exists>loaded reloaded.
     loadProfile (snd (saveProfile (joe (ascii ''https://twitter.com/joe'')) Map.empty)) =
       Some loaded \<and>
     userProfile (run loaded idleApp) = Some reloaded \<and>
     getProperty reloaded (ascii ''name'') = Some (ascii ''Joe '' @ [0x22] @ ascii ''J'' @ [0x22] @ ascii '' Silva'') \<and>
     getProperty reloaded (ascii ''instagram'') = Some ([0xD83D, 0xDD25] @ ascii ''joe'') \<and>
     getProperty reloaded (ascii ''twitter'') = Some (ascii ''https://twitter.com/joe'')"
  using saveProfile_loadProfile_roundtrip
    [of "joe (ascii ''https://twitter.com/joe'')" Map.empty idleApp idleApp]
  by (auto simp: joe_def)


end
